theory Spec2Isabelle
  imports Main "HOL-Library.Log_Nat"
begin

section \<open>Data model (src/lib/types.ts)\<close>

text \<open>
  \<^verbatim>\<open>Project.status\<close> is the five-valued union of the source; the other fields are strings.
  \<^verbatim>\<open>id\<close> and \<^verbatim>\<open>name\<close> occur in several types, so they carry the type's name here.
\<close>

datatype ProjectStatus = OnTrack | AtRisk | OffTrack | OnHold | Completed

record Project =
  project_id :: string
  project_name :: string
  clientId :: string
  managerId :: string
  projectType :: string
  startDate :: string
  estimatedEndDate :: string
  project_status :: ProjectStatus

record Milestone =
  milestone_id :: string
  milestone_name :: string
  description :: string
  milestone_projectType :: string

text \<open>
  \<^verbatim>\<open>WeeklyReport\<close>: \<^verbatim>\<open>id?: string\<close> is optional, \<^verbatim>\<open>week\<close> and \<^verbatim>\<open>progress\<close> are numbers (integers
  here: \<^verbatim>\<open>progress\<close> is always a result of \<^verbatim>\<open>Math.round\<close>). \<^verbatim>\<open>status\<close> is kept a string,
  since the schema checks it at run time.
\<close>

record WeeklyReport =
  report_id :: "string option"
  projectId :: string
  week :: int
  progress :: int
  summary :: string
  status :: string
  milestones :: "string list"
  createdAt :: string

section \<open>JavaScript values\<close>

text \<open>
  \<^verbatim>\<open>Array.from(new Set(xs))\<close>: a JavaScript \<^verbatim>\<open>Set\<close> keeps insertion order, so the array holds
  each element once, at the place of its first occurrence.
\<close>

definition setAdd :: "'a list \<Rightarrow> 'a \<Rightarrow> 'a list" where
  "setAdd s x = (if x \<in> set s then s else s @ [x])"

definition arrayFromSet :: "'a list \<Rightarrow> 'a list" where
  "arrayFromSet xs = foldl setAdd [] xs"

text \<open>
  Numbers are IEEE 754 binary64. A finite double is a rational; \<open>binary64 x\<close> is the double
  nearest to the rational \<open>x\<close> (ties to the even significand), for \<open>x\<close> in the normal range,
  which is where quotients of array lengths and their products by 100 lie. Division and
  multiplication of doubles are the exact operation followed by this rounding.
  \<open>ilog2 x\<close> is the exponent \<open>\<lfloor>log\<^sub>2 x\<rfloor>\<close> of a positive \<open>x\<close>; the significand has 53 bits.
\<close>

definition pow2 :: "int \<Rightarrow> rat" where
  "pow2 e = (if 0 \<le> e then 2 ^ nat e else 1 / 2 ^ nat (- e))"

definition ilog2 :: "rat \<Rightarrow> int" where
  "ilog2 x = (if 1 \<le> x then int (floorlog 2 (nat \<lfloor>x\<rfloor>)) - 1
              else - int (floorlog 2 (nat (\<lceil>1 / x\<rceil> - 1))))"

definition roundTiesToEven :: "rat \<Rightarrow> int" where
  "roundTiesToEven x =
     (let f = \<lfloor>x\<rfloor>; d = x - of_int f
      in if d < 1 / 2 then f else if 1 / 2 < d then f + 1 else if even f then f else f + 1)"

definition binary64 :: "rat \<Rightarrow> rat" where
  "binary64 x =
     (if x = 0 then 0
      else let u = pow2 (ilog2 \<bar>x\<bar> - 52)
           in sgn x * of_int (roundTiesToEven (\<bar>x\<bar> / u)) * u)"

text \<open>\<^verbatim>\<open>Math.round\<close>: the nearest integer, a tie going up.\<close>

definition mathRound :: "rat \<Rightarrow> int" where
  "mathRound x = \<lfloor>x + 1 / 2\<rfloor>"

section \<open>The document store\<close>

text \<open>
  The Firestore collections the code touches: \<^verbatim>\<open>projects/{id}\<close>,
  \<^verbatim>\<open>projects/{pid}/weeklyReports/{rid}\<close> (an entry is the project id of the path, the
  document id and the document's data, which carries no id of its own) and \<^verbatim>\<open>milestones\<close>.
  The security rules are outside the repository: they are a parameter \<open>rules\<close> of the
  environment, as are the clock and the id \<^verbatim>\<open>addDoc\<close> draws for a new document.
\<close>

record firestore =
  projects :: "Project list"
  weeklyReports :: "(string \<times> string \<times> WeeklyReport) list"
  milestonesCol :: "Milestone list"

datatype docref = ProjectRef string | ReportRef string string | ReportsCol string

datatype operation = OpList | OpCreate | OpUpdate | OpDelete

datatype writeError = PermissionDenied | NotFound

record env =
  firestoreReady :: bool
  rules :: "operation \<Rightarrow> docref \<Rightarrow> bool"
  now :: string
  newId :: string

text \<open>A snapshot of \<^verbatim>\<open>projects/{pid}/weeklyReports\<close>: each document with its id attached.\<close>

definition reportsOf :: "firestore \<Rightarrow> string \<Rightarrow> WeeklyReport list" where
  "reportsOf db pid =
     map (\<lambda>(p, rid, d). d\<lparr>report_id := Some rid\<rparr>)
       (filter (\<lambda>(p, rid, d). p = pid) (weeklyReports db))"

definition getReport :: "firestore \<Rightarrow> string \<Rightarrow> string \<Rightarrow> WeeklyReport option" where
  "getReport db pid rid = find (\<lambda>r. report_id r = Some rid) (reportsOf db pid)"

definition getProject :: "firestore \<Rightarrow> string \<Rightarrow> Project option" where
  "getProject db pid = find (\<lambda>p. project_id p = pid) (projects db)"

text \<open>\<^verbatim>\<open>query(collection(firestore, "milestones"), where("projectType", "==", t))\<close>\<close>

definition milestonesQuery :: "firestore \<Rightarrow> string \<Rightarrow> Milestone list" where
  "milestonesQuery db t = filter (\<lambda>m. milestone_projectType m = t) (milestonesCol db)"

text \<open>\<^verbatim>\<open>query(collection(.../weeklyReports), orderBy('week', 'asc'))\<close>\<close>

definition reportsQuery :: "firestore \<Rightarrow> string \<Rightarrow> WeeklyReport list" where
  "reportsQuery db pid = sort_key week (reportsOf db pid)"

definition addDoc :: "env \<Rightarrow> firestore \<Rightarrow> string \<Rightarrow> WeeklyReport \<Rightarrow> firestore \<times> writeError option" where
  "addDoc e db pid d =
     (if rules e OpCreate (ReportsCol pid)
      then (db\<lparr>weeklyReports := weeklyReports db @ [(pid, newId e, d)]\<rparr>, None)
      else (db, Some PermissionDenied))"

definition updateReportDoc ::
  "env \<Rightarrow> firestore \<Rightarrow> string \<Rightarrow> string \<Rightarrow> WeeklyReport \<Rightarrow> firestore \<times> writeError option" where
  "updateReportDoc e db pid rid d =
     (if \<not> rules e OpUpdate (ReportRef pid rid) then (db, Some PermissionDenied)
      else if getReport db pid rid = None then (db, Some NotFound)
      else (db\<lparr>weeklyReports :=
                  map (\<lambda>(p, r, old). if p = pid \<and> r = rid then (p, r, d) else (p, r, old))
                    (weeklyReports db)\<rparr>, None))"

definition updateProjectStatus ::
  "env \<Rightarrow> firestore \<Rightarrow> string \<Rightarrow> ProjectStatus \<Rightarrow> firestore \<times> writeError option" where
  "updateProjectStatus e db pid s =
     (if \<not> rules e OpUpdate (ProjectRef pid) then (db, Some PermissionDenied)
      else if getProject db pid = None then (db, Some NotFound)
      else (db\<lparr>projects :=
                  map (\<lambda>p. if project_id p = pid then p\<lparr>project_status := s\<rparr> else p)
                    (projects db)\<rparr>, None))"

text \<open>
  A write batch of deletions. \<^verbatim>\<open>batch.commit()\<close> is the store's atomic primitive: the
  rules are checked for every operation of the batch, and either all of them apply or the
  commit is rejected and none does.
\<close>

fun deleteRef :: "firestore \<Rightarrow> docref \<Rightarrow> firestore" where
  "deleteRef db (ProjectRef pid) = db\<lparr>projects := filter (\<lambda>p. project_id p \<noteq> pid) (projects db)\<rparr>"
| "deleteRef db (ReportRef pid rid) =
     db\<lparr>weeklyReports := filter (\<lambda>(p, r, d). \<not> (p = pid \<and> r = rid)) (weeklyReports db)\<rparr>"
| "deleteRef db (ReportsCol pid) = db"

definition commit :: "env \<Rightarrow> firestore \<Rightarrow> docref list \<Rightarrow> firestore \<times> writeError option" where
  "commit e db batch =
     (if list_all (rules e OpDelete) batch then (foldl deleteRef db batch, None)
      else (db, Some PermissionDenied))"

section \<open>ReportFormLoader (src/components/projects/report-form-loader.tsx)\<close>

definition weekToCompare :: "WeeklyReport option \<Rightarrow> int \<Rightarrow> int" where
  "weekToCompare reportToEdit reportNumber =
     (case reportToEdit of Some r \<Rightarrow> week r | None \<Rightarrow> reportNumber)"

text \<open>\<^verbatim>\<open>where("week", "<", weekToCompare), orderBy("week", "desc")\<close>\<close>

definition previousReportsQuery :: "WeeklyReport list \<Rightarrow> int \<Rightarrow> WeeklyReport list" where
  "previousReportsQuery col w = rev (sort_key week (filter (\<lambda>r. week r < w) col))"

text \<open>
  The two nested \<^verbatim>\<open>forEach\<close> loops adding to one \<^verbatim>\<open>Set\<close>, then \<^verbatim>\<open>Array.from\<close>;
  \<^verbatim>\<open>[]\<close> while the query has no data.
\<close>

definition previouslyCompletedMilestones :: "WeeklyReport list option \<Rightarrow> string list" where
  "previouslyCompletedMilestones previousReports =
     (case previousReports of
        None \<Rightarrow> []
      | Some rs \<Rightarrow> foldl (\<lambda>acc r. foldl setAdd acc (milestones r)) [] rs)"

definition newReportObject :: "env \<Rightarrow> Project \<Rightarrow> int \<Rightarrow> WeeklyReport" where
  "newReportObject e project reportNumber =
     \<lparr>report_id = None, projectId = project_id project, week = reportNumber, progress = 0,
      summary = [], status = ''On Track'', milestones = [], createdAt = now e\<rparr>"

section \<open>ReportForm (src/components/projects/report-form.tsx)\<close>

record formState =
  form_summary :: string
  form_status :: string
  checkedMilestones :: "string list"

text \<open>
  The initial state: \<^verbatim>\<open>report.summary || ''\<close>, \<^verbatim>\<open>report.status || 'On Track'\<close>, and the effect
  that merges the inherited milestones with the report's own through a \<^verbatim>\<open>Set\<close>.
\<close>

definition initialMilestones :: "string list \<Rightarrow> WeeklyReport \<Rightarrow> string list" where
  "initialMilestones previouslyCompleted report =
     arrayFromSet (previouslyCompleted @ milestones report)"

definition initialState :: "string list \<Rightarrow> WeeklyReport \<Rightarrow> formState" where
  "initialState previouslyCompleted report =
     \<lparr>form_summary = summary report,
      form_status = (if status report = [] then ''On Track'' else status report),
      checkedMilestones = initialMilestones previouslyCompleted report\<rparr>"

text \<open>
  \<^verbatim>\<open>Math.round((checkedMilestones.length / projectMilestones.length) * 100)\<close>, and 0 when the
  catalog is not loaded or empty. The quotient and the product are double operations.
\<close>

definition progressValue :: "Milestone list option \<Rightarrow> string list \<Rightarrow> int" where
  "progressValue projectMilestones checked =
     (case projectMilestones of
        None \<Rightarrow> 0
      | Some ms \<Rightarrow>
          if length ms = 0 then 0
          else mathRound (binary64 (binary64 (of_nat (length checked) / of_nat (length ms)) * 100)))"

definition handleCheckboxChange :: "string \<Rightarrow> bool \<Rightarrow> string list \<Rightarrow> string list" where
  "handleCheckboxChange milestoneId checked prev =
     (if checked then prev @ [milestoneId] else filter (\<lambda>i. i \<noteq> milestoneId) prev)"

text \<open>
  What the rendered checklist can do: there is one checkbox per catalog milestone, it is
  \<^verbatim>\<open>disabled\<close> when its id is among the previously completed ones (a disabled checkbox
  reports no change), and otherwise its change goes to \<open>handleCheckboxChange\<close>.
\<close>

datatype event = SetSummary string | SetStatus string | CheckedChange string bool

fun applyEvent :: "Milestone list option \<Rightarrow> string list \<Rightarrow> formState \<Rightarrow> event \<Rightarrow> formState" where
  "applyEvent pms prevCompleted st (SetSummary s) = st\<lparr>form_summary := s\<rparr>"
| "applyEvent pms prevCompleted st (SetStatus s) = st\<lparr>form_status := s\<rparr>"
| "applyEvent pms prevCompleted st (CheckedChange mid c) =
     (case pms of
        None \<Rightarrow> st
      | Some ms \<Rightarrow>
          if mid \<in> set (map milestone_id ms) \<and> mid \<notin> set prevCompleted
          then st\<lparr>checkedMilestones := handleCheckboxChange mid c (checkedMilestones st)\<rparr>
          else st)"

text \<open>
  \<^verbatim>\<open>reportSchema\<close>: the fields of the draft that have an issue, in the schema's order. The
  milestones are an array of strings by their type, so that field never has one.
\<close>

datatype field = SummaryField | StatusField | MilestonesField | ProgressField

definition allowedStatuses :: "string list" where
  "allowedStatuses = [''On Track'', ''At Risk'', ''Off Track'']"

definition reportSchema :: "string \<Rightarrow> string \<Rightarrow> string list \<Rightarrow> int \<Rightarrow> field list" where
  "reportSchema s st ms p =
     (if length s < 1 then [SummaryField] else []) @
     (if st \<in> set allowedStatuses then [] else [StatusField]) @
     (if 0 \<le> p \<and> p \<le> 100 then [] else [ProgressField])"

text \<open>
  How a handler ends: it returned at its first line (no store, or no project), the
  validation toast, the success toast, the permission error sent to the error emitter, the
  toast of any other error, or the page's \<^verbatim>\<open>notFound()\<close>.
\<close>

datatype outcome =
  Returned | ValidationError "field list" | Success | PermissionError | OtherError | NotFoundPage

definition settle :: "writeError option \<Rightarrow> writeError option \<Rightarrow> outcome" where
  "settle r1 r2 =
     (case r1 of
        Some PermissionDenied \<Rightarrow> PermissionError
      | Some NotFound \<Rightarrow> OtherError
      | None \<Rightarrow>
          (case r2 of
             Some PermissionDenied \<Rightarrow> PermissionError
           | Some NotFound \<Rightarrow> OtherError
           | None \<Rightarrow> Success))"

text \<open>
  \<^verbatim>\<open>report.id\<close> as a condition (and \<^verbatim>\<open>reportId\<close> in the loader): a string that is present and
  not empty.
\<close>

definition truthyId :: "string option \<Rightarrow> string option" where
  "truthyId i = (case i of Some s \<Rightarrow> if s = [] then None else Some s | None \<Rightarrow> None)"

definition hasId :: "WeeklyReport \<Rightarrow> bool" where
  "hasId report = (truthyId (report_id report) \<noteq> None)"

text \<open>The id of the document the report write goes to: the report's own, or the new one.\<close>

definition reportDocId :: "env \<Rightarrow> WeeklyReport \<Rightarrow> string" where
  "reportDocId e report = (case truthyId (report_id report) of None \<Rightarrow> newId e | Some rid \<Rightarrow> rid)"

definition finalReportData :: "env \<Rightarrow> WeeklyReport \<Rightarrow> Milestone list option \<Rightarrow> formState \<Rightarrow> WeeklyReport" where
  "finalReportData e report pms st =
     \<lparr>report_id = None, projectId = projectId report, week = week report,
      progress = progressValue pms (checkedMilestones st),
      summary = form_summary st, status = form_status st,
      milestones = checkedMilestones st,
      createdAt = (if hasId report then createdAt report else now e)\<rparr>"

text \<open>
  \<open>saveReportAndProject\<close>: nothing without a store; validation, and a return without a
  write when it fails; then the report write (\<^verbatim>\<open>addDoc\<close> for a new report, \<^verbatim>\<open>updateDoc\<close>
  otherwise) and, only when \<open>markProjectAsCompleted\<close>, the project update. The two writes
  are independent requests awaited together.
\<close>

definition reportPromise ::
  "env \<Rightarrow> firestore \<Rightarrow> Project \<Rightarrow> WeeklyReport \<Rightarrow> WeeklyReport \<Rightarrow> firestore \<times> writeError option" where
  "reportPromise e db project report d =
     (case truthyId (report_id report) of
        None \<Rightarrow> addDoc e db (project_id project) d
      | Some rid \<Rightarrow> updateReportDoc e db (project_id project) rid d)"

definition saveReportAndProject ::
  "env \<Rightarrow> firestore \<Rightarrow> Project \<Rightarrow> WeeklyReport \<Rightarrow> Milestone list option \<Rightarrow> formState \<Rightarrow> bool
     \<Rightarrow> firestore \<times> outcome" where
  "saveReportAndProject e db project report pms st markProjectAsCompleted =
     (if \<not> firestoreReady e then (db, Returned)
      else
        let issues = reportSchema (form_summary st) (form_status st) (checkedMilestones st)
                       (progressValue pms (checkedMilestones st))
        in if issues \<noteq> [] then (db, ValidationError issues)
           else
             let d = finalReportData e report pms st;
                 (db1, r1) = reportPromise e db project report d;
                 (db2, r2) = (if markProjectAsCompleted
                              then updateProjectStatus e db1 (project_id project) Completed
                              else (db1, None))
             in (db2, settle r1 r2))"

text \<open>
  \<open>handleFormSubmit\<close>: the completion dialog is shown when the catalog is loaded, the checked
  list is as long as the catalog and the project is not Completed; otherwise the report is
  saved at once. The dialog's two buttons call \<open>saveReportAndProject\<close> with \<open>false\<close>
  (Just Save Report) and \<open>true\<close> (Confirm and Save).
\<close>

definition allMilestonesCompleted :: "Milestone list option \<Rightarrow> string list \<Rightarrow> Project \<Rightarrow> bool" where
  "allMilestonesCompleted projectMilestones checked project =
     (case projectMilestones of
        None \<Rightarrow> False
      | Some ms \<Rightarrow> length checked = length ms \<and> project_status project \<noteq> Completed)"

datatype submitResult = ShowCompletionDialog | Saved "firestore \<times> outcome"

definition handleFormSubmit ::
  "env \<Rightarrow> firestore \<Rightarrow> Project \<Rightarrow> WeeklyReport \<Rightarrow> Milestone list option \<Rightarrow> formState \<Rightarrow> submitResult" where
  "handleFormSubmit e db project report pms st =
     (if allMilestonesCompleted pms (checkedMilestones st) project then ShowCompletionDialog
      else Saved (saveReportAndProject e db project report pms st False))"

datatype decision = Confirm | Decline

definition onDialogButton ::
  "decision \<Rightarrow> env \<Rightarrow> firestore \<Rightarrow> Project \<Rightarrow> WeeklyReport \<Rightarrow> Milestone list option \<Rightarrow> formState
     \<Rightarrow> firestore \<times> outcome" where
  "onDialogButton dec e db project report pms st =
     saveReportAndProject e db project report pms st (dec = Confirm)"

section \<open>ProjectDetailView and GeneralReportView\<close>

text \<open>\<^verbatim>\<open>reports[reports.length - 1]\<close> and \<^verbatim>\<open>latestReport?.progress ?? 0\<close>\<close>

definition latestReport :: "WeeklyReport list \<Rightarrow> WeeklyReport option" where
  "latestReport reports = (if reports = [] then None else Some (last reports))"

definition overallProgress :: "WeeklyReport list \<Rightarrow> int" where
  "overallProgress reports = (case latestReport reports of None \<Rightarrow> 0 | Some r \<Rightarrow> progress r)"

text \<open>
  \<open>handleDeleteProject\<close>: nothing without a store or a project; else the reports of the
  project are read, each is put in the batch, then the project document, and the batch is
  committed. A denied read or commit ends in the permission error and deletes nothing.
\<close>

definition handleDeleteProject :: "env \<Rightarrow> firestore \<Rightarrow> Project option \<Rightarrow> firestore \<times> outcome" where
  "handleDeleteProject e db project =
     (case project of
        None \<Rightarrow> (db, Returned)
      | Some p \<Rightarrow>
          if \<not> firestoreReady e then (db, Returned)
          else if \<not> rules e OpList (ReportsCol (project_id p)) then (db, PermissionError)
          else
            let reportsSnapshot = filter (\<lambda>(q, rid, d). q = project_id p) (weeklyReports db);
                batch = map (\<lambda>(q, rid, d). ReportRef q rid) reportsSnapshot @ [ProjectRef (project_id p)];
                (db', r) = commit e db batch
            in (db', settle r None))"

section \<open>A visit to the report page\<close>

text \<open>
  One visit to the report page, from loading to the settled save: the loader reads the
  report to edit (when a report id is given; \<^verbatim>\<open>notFound()\<close> when it does not exist), the
  reports of the earlier weeks and from them the previously completed milestones; the form
  starts from them, takes the user's events, and is submitted; when the completion dialog
  opens, one of its two buttons is pressed.
\<close>

record visit =
  v_projectId :: string
  v_reportNumber :: int
  v_reportId :: "string option"
  v_events :: "event list"
  v_decision :: decision

definition loaderReportToEdit :: "firestore \<Rightarrow> string \<Rightarrow> string option \<Rightarrow> WeeklyReport option" where
  "loaderReportToEdit db pid reportId =
     (case truthyId reportId of None \<Rightarrow> None | Some rid \<Rightarrow> getReport db pid rid)"

definition loaderPreviouslyCompleted :: "firestore \<Rightarrow> string \<Rightarrow> string option \<Rightarrow> int \<Rightarrow> string list" where
  "loaderPreviouslyCompleted db pid reportId reportNumber =
     previouslyCompletedMilestones
       (Some (previousReportsQuery (reportsOf db pid)
                (weekToCompare (loaderReportToEdit db pid reportId) reportNumber)))"

definition loaderReport :: "env \<Rightarrow> firestore \<Rightarrow> Project \<Rightarrow> string option \<Rightarrow> int \<Rightarrow> WeeklyReport" where
  "loaderReport e db project reportId reportNumber =
     (case loaderReportToEdit db (project_id project) reportId of
        Some r \<Rightarrow> r
      | None \<Rightarrow> newReportObject e project reportNumber)"

definition formAfter ::
  "Milestone list option \<Rightarrow> string list \<Rightarrow> WeeklyReport \<Rightarrow> event list \<Rightarrow> formState" where
  "formAfter pms prevCompleted report evs =
     foldl (applyEvent pms prevCompleted) (initialState prevCompleted report) evs"

text \<open>The form as it stands at the submit: the report it was given, the catalog, the state.\<close>

definition pageForm ::
  "env \<Rightarrow> firestore \<Rightarrow> Project \<Rightarrow> visit \<Rightarrow> WeeklyReport \<times> Milestone list option \<times> formState" where
  "pageForm e db project v =
     (let prevCompleted =
            loaderPreviouslyCompleted db (project_id project) (v_reportId v) (v_reportNumber v);
          report = loaderReport e db project (v_reportId v) (v_reportNumber v);
          pms = Some (milestonesQuery db (projectType project))
      in (report, pms, formAfter pms prevCompleted report (v_events v)))"

definition reportPage :: "env \<Rightarrow> firestore \<Rightarrow> visit \<Rightarrow> firestore \<times> outcome" where
  "reportPage e db v =
     (case getProject db (v_projectId v) of
        None \<Rightarrow> (db, NotFoundPage)
      | Some project \<Rightarrow>
          if truthyId (v_reportId v) \<noteq> None
             \<and> loaderReportToEdit db (project_id project) (v_reportId v) = None
          then (db, NotFoundPage)
          else
            (case pageForm e db project v of
               (report, pms, st) \<Rightarrow>
                 (case handleFormSubmit e db project report pms st of
                    Saved res \<Rightarrow> res
                  | ShowCompletionDialog \<Rightarrow>
                      onDialogButton (v_decision v) e db project report pms st)))"

definition reportPages :: "firestore \<Rightarrow> (env \<times> visit) list \<Rightarrow> firestore" where
  "reportPages db vs = foldl (\<lambda>d (e, v). fst (reportPage e d v)) db vs"

text \<open>
  The report write of a visit is accepted: the page reaches the form, the store is there,
  the draft passes the validation and the store accepts the write of the report, whatever
  becomes of the project update that may go with it.
\<close>

definition reportWriteAccepted :: "env \<Rightarrow> firestore \<Rightarrow> visit \<Rightarrow> bool" where
  "reportWriteAccepted e db v =
     (case getProject db (v_projectId v) of
        None \<Rightarrow> False
      | Some project \<Rightarrow>
          \<not> (truthyId (v_reportId v) \<noteq> None
             \<and> loaderReportToEdit db (project_id project) (v_reportId v) = None)
          \<and> (case pageForm e db project v of
               (report, pms, st) \<Rightarrow>
                 firestoreReady e
                 \<and> reportSchema (form_summary st) (form_status st) (checkedMilestones st)
                      (progressValue pms (checkedMilestones st)) = []
                 \<and> snd (reportPromise e db project report (finalReportData e report pms st)) = None))"

text \<open>The week a visit writes: the week of the report it edits, or the report number.\<close>

definition visitWeek :: "firestore \<Rightarrow> visit \<Rightarrow> int" where
  "visitWeek db v =
     weekToCompare (loaderReportToEdit db (v_projectId v) (v_reportId v)) (v_reportNumber v)"

text \<open>
  Visits in week order: each visit writes a week that no report its project has at that
  moment exceeds.
\<close>

fun inWeekOrder :: "firestore \<Rightarrow> (env \<times> visit) list \<Rightarrow> bool" where
  "inWeekOrder db [] = True"
| "inWeekOrder db ((e, v) # vs) =
     ((\<forall>r \<in> set (reportsOf db (v_projectId v)). week r \<le> visitWeek db v)
      \<and> inWeekOrder (fst (reportPage e db v)) vs)"

section \<open>The specification's words\<close>

text \<open>
  Round half up on the exact percentage, and the progress the specification asks for,
  for \<open>K\<close> checked milestones out of a catalog of \<open>N\<close>.
\<close>

definition roundHalfUp :: "rat \<Rightarrow> int" where
  "roundHalfUp x = \<lfloor>x + 1 / 2\<rfloor>"

definition spec_progress :: "nat \<Rightarrow> nat \<Rightarrow> int" where
  "spec_progress K N = (if N = 0 then 0 else roundHalfUp (100 * of_nat K / of_nat N))"

text \<open>
  Monotonic inheritance over the reports of one project: the milestones of a report are
  among those of every report of a later week.
\<close>

definition monotonicInheritance :: "WeeklyReport list \<Rightarrow> bool" where
  "monotonicInheritance rs =
     (\<forall>r1 \<in> set rs. \<forall>r2 \<in> set rs. week r1 < week r2 \<longrightarrow> set (milestones r1) \<subseteq> set (milestones r2))"

section \<open>Example data\<close>

definition exampleMilestone :: "string \<Rightarrow> Milestone" where
  "exampleMilestone i =
     \<lparr>milestone_id = i, milestone_name = [], description = [], milestone_projectType = ''solar-roof''\<rparr>"

definition exampleIds :: "nat \<Rightarrow> string list" where
  "exampleIds n = map (\<lambda>k. replicate (Suc k) CHR ''m'') [0..<n]"

definition exampleCatalog :: "nat \<Rightarrow> Milestone list" where
  "exampleCatalog n = map exampleMilestone (exampleIds n)"

definition exampleProject :: "ProjectStatus \<Rightarrow> Project" where
  "exampleProject s =
     \<lparr>project_id = ''p1'', project_name = ''Roof'', clientId = ''c1'', managerId = ''u1'',
      projectType = ''solar-roof'', startDate = ''2024-01-01'', estimatedEndDate = ''2024-06-30'',
      project_status = s\<rparr>"

definition exampleReport :: "string \<Rightarrow> int \<Rightarrow> int \<Rightarrow> string list \<Rightarrow> WeeklyReport" where
  "exampleReport rid w p ms =
     \<lparr>report_id = Some rid, projectId = ''p1'', week = w, progress = p, summary = ''done'',
      status = ''On Track'', milestones = ms, createdAt = ''T0''\<rparr>"

definition exampleEnv :: "string \<Rightarrow> string \<Rightarrow> env" where
  "exampleEnv t i = \<lparr>firestoreReady = True, rules = (\<lambda>op ref. True), now = t, newId = i\<rparr>"

definition exampleForm :: "string \<Rightarrow> string list \<Rightarrow> formState" where
  "exampleForm s checked = \<lparr>form_summary = s, form_status = ''On Track'', checkedMilestones = checked\<rparr>"

definition exampleStore :: "Milestone list \<Rightarrow> firestore" where
  "exampleStore catalog =
     \<lparr>projects = [exampleProject OnTrack], weeklyReports = [], milestonesCol = catalog\<rparr>"

definition catalog4 :: "Milestone list" where
  "catalog4 = map exampleMilestone [''m1'', ''m2'', ''m3'', ''m4'']"

text \<open>The store after a first report of week 1 that checked two of the four milestones.\<close>

definition storeWeek1 :: firestore where
  "storeWeek1 =
     \<lparr>projects = [exampleProject OnTrack],
      weeklyReports = [(''p1'', ''r1'', (exampleReport ''r1'' 1 50 [''m1'', ''m2''])\<lparr>report_id := None\<rparr>)],
      milestonesCol = catalog4\<rparr>"

definition exampleVisit :: "int \<Rightarrow> string option \<Rightarrow> event list \<Rightarrow> visit" where
  "exampleVisit n rid evs =
     \<lparr>v_projectId = ''p1'', v_reportNumber = n, v_reportId = rid, v_events = evs,
      v_decision = Decline\<rparr>"

text \<open>
  A store whose report of week 1 holds a milestone id that is no longer in the catalog of
  the project's type (the milestone was deleted, or the project's type was changed), and
  the visit that creates the report of week 2 and checks \<open>a\<close>.
\<close>

definition staleStore :: firestore where
  "staleStore =
     \<lparr>projects = [exampleProject OnTrack],
      weeklyReports = [(''p1'', ''r1'', (exampleReport ''r1'' 1 50 [''old''])\<lparr>report_id := None\<rparr>)],
      milestonesCol = [exampleMilestone ''a'', exampleMilestone ''b'']\<rparr>"

definition staleVisit :: visit where
  "staleVisit = exampleVisit 2 None [SetSummary ''week 2'', CheckedChange ''a'' True]"

definition catalog2 :: "Milestone list" where
  "catalog2 = [exampleMilestone ''a'', exampleMilestone ''b'']"

text \<open>Rules that allow everything but deletions.\<close>

definition denyDeleteEnv :: env where
  "denyDeleteEnv =
     \<lparr>firestoreReady = True, rules = (\<lambda>op ref. op \<noteq> OpDelete), now = ''T9'', newId = ''r9''\<rparr>"

text \<open>The visit that edits the report \<open>r1\<close> of \<open>storeWeek1\<close>.\<close>

definition editWeek1Visit :: visit where
  "editWeek1Visit = exampleVisit 1 (Some ''r1'') [SetSummary ''edited'', CheckedChange ''m3'' True]"

text \<open>
  Three visits: the report of week 1 is created with one milestone checked, the report of
  week 2 is created and inherits it, then the report of week 1 is edited and a second
  milestone is checked there.
\<close>

definition editEarlierVisits :: "(env \<times> visit) list" where
  "editEarlierVisits =
     [(exampleEnv ''T1'' ''r1'', exampleVisit 1 None [SetSummary ''week 1'', CheckedChange ''m1'' True]),
      (exampleEnv ''T2'' ''r2'', exampleVisit 2 None [SetSummary ''week 2'']),
      (exampleEnv ''T3'' ''r3'', exampleVisit 1 (Some ''r1'') [CheckedChange ''m2'' True])]"

text \<open>
  The visit that creates the report of week 2 after \<open>storeWeek1\<close>: the user tries to uncheck
  the inherited \<open>m1\<close> and checks \<open>m3\<close>.
\<close>

definition week2Visit :: visit where
  "week2Visit =
     exampleVisit 2 None [SetSummary ''week 2'', CheckedChange ''m1'' False, CheckedChange ''m3'' True]"

text \<open>
  The visit that creates the report of week 3 with both milestones of \<open>catalog2\<close> checked
  and confirms the completion, under rules that deny the update of the project document.
\<close>

definition confirmVisit :: visit where
  "confirmVisit =
     \<lparr>v_projectId = ''p1'', v_reportNumber = 3, v_reportId = None,
      v_events = [SetSummary ''week 3'', CheckedChange ''a'' True, CheckedChange ''b'' True],
      v_decision = Confirm\<rparr>"

definition denyProjectUpdateEnv :: env where
  "denyProjectUpdateEnv =
     \<lparr>firestoreReady = True, rules = (\<lambda>op ref. \<not> (op = OpUpdate \<and> ref = ProjectRef ''p1'')),
      now = ''T3'', newId = ''r3''\<rparr>"

text \<open>A visit that leaves the summary empty.\<close>

definition noSummaryVisit :: visit where
  "noSummaryVisit = exampleVisit 2 None [CheckedChange ''m3'' True]"

text \<open>
  A visit to a project whose type has no milestone in the catalog: a summary is written,
  nothing can be checked, and the completion is confirmed when the dialog opens.
\<close>

definition emptyCatalogVisit :: visit where
  "emptyCatalogVisit =
     \<lparr>v_projectId = ''p1'', v_reportNumber = 1, v_reportId = None,
      v_events = [SetSummary ''week 1''], v_decision = Confirm\<rparr>"

section \<open>Sets as arrays\<close>

lemma setAdd_set: "set (setAdd s x) = insert x (set s)"
  by (auto simp: setAdd_def)

lemma foldl_setAdd_set: "set (foldl setAdd acc xs) = set acc \<union> set xs"
  by (induction xs arbitrary: acc) (auto simp: setAdd_set)

lemma foldl_setAdd_distinct: "distinct acc \<Longrightarrow> distinct (foldl setAdd acc xs)"
  by (induction xs arbitrary: acc) (auto simp: setAdd_def)

lemma set_arrayFromSet: "set (arrayFromSet xs) = set xs"
  by (simp add: arrayFromSet_def foldl_setAdd_set)

lemma distinct_arrayFromSet: "distinct (arrayFromSet xs)"
  by (simp add: arrayFromSet_def foldl_setAdd_distinct)

section \<open>The inherited floor\<close>

lemma collect_milestones_set:
  "set (foldl (\<lambda>acc r. foldl setAdd acc (milestones r)) acc rs)
     = set acc \<union> (\<Union>r\<in>set rs. set (milestones r))"
  by (induction rs arbitrary: acc) (auto simp: foldl_setAdd_set)

lemma collect_milestones_distinct:
  "distinct acc \<Longrightarrow> distinct (foldl (\<lambda>acc r. foldl setAdd acc (milestones r)) acc rs)"
  by (induction rs arbitrary: acc) (auto simp: foldl_setAdd_distinct)

lemma set_previousReportsQuery: "set (previousReportsQuery col w) = {r \<in> set col. week r < w}"
  by (auto simp: previousReportsQuery_def)

text \<open>
  C8. For every collection of reports and every target week \<open>w\<close>, the previously completed
  milestones computed by the loader are, as a set, the union of the milestones of exactly
  the reports whose week is strictly less than \<open>w\<close>; a report of week \<open>w\<close> or later adds
  nothing, and no id occurs twice in the result.
\<close>

theorem previouslyCompletedMilestones_union:
  "set (previouslyCompletedMilestones (Some (previousReportsQuery col w)))
     = (\<Union>r \<in> {r \<in> set col. week r < w}. set (milestones r))
   \<and> distinct (previouslyCompletedMilestones (Some (previousReportsQuery col w)))"
  by (simp add: previouslyCompletedMilestones_def collect_milestones_set
      collect_milestones_distinct set_previousReportsQuery)

lemma set_loaderPreviouslyCompleted:
  "set (loaderPreviouslyCompleted db pid rid n)
     = (\<Union>r \<in> {r \<in> set (reportsOf db pid).
                  week r < weekToCompare (loaderReportToEdit db pid rid) n}.
          set (milestones r))"
  by (simp add: loaderPreviouslyCompleted_def previouslyCompletedMilestones_def
      collect_milestones_set set_previousReportsQuery)

lemma week_loaderReport:
  "week (loaderReport e db project rid n)
     = weekToCompare (loaderReportToEdit db (project_id project) rid) n"
  by (simp add: loaderReport_def weekToCompare_def newReportObject_def split: option.splits)

section \<open>The checkbox handler\<close>

text \<open>
  C10. \<open>handleCheckboxChange m True\<close> appends \<open>m\<close> to the checked list whether or not \<open>m\<close>
  is already there, so the number of occurrences of \<open>m\<close> and the length both grow by one;
  \<open>handleCheckboxChange m False\<close> removes every occurrence of \<open>m\<close>; and the progress is
  computed from the length of the list, so a repeated id counts each time.
\<close>

theorem handleCheckboxChange_list:
  "handleCheckboxChange m True s = s @ [m]
   \<and> count_list (handleCheckboxChange m True s) m = count_list s m + 1
   \<and> length (handleCheckboxChange m True s) = length s + 1
   \<and> handleCheckboxChange m False s = filter (\<lambda>i. i \<noteq> m) s
   \<and> count_list (handleCheckboxChange m False s) m = 0
   \<and> progressValue (Some ms) (handleCheckboxChange m True s)
       = (if length ms = 0 then 0
          else mathRound (binary64 (binary64 (of_nat (length s + 1) / of_nat (length ms)) * 100)))"
  by (auto simp: handleCheckboxChange_def progressValue_def count_list_0_iff)

text \<open>The events of the rendered checklist never take an inherited id out of the list.\<close>

lemma applyEvent_keeps:
  "set prev \<subseteq> set (checkedMilestones st) \<Longrightarrow>
   set prev \<subseteq> set (checkedMilestones (applyEvent pms prev st ev))"
  by (cases ev) (auto simp: handleCheckboxChange_def split: option.splits)

lemma foldl_applyEvent_keeps:
  "set prev \<subseteq> set (checkedMilestones st) \<Longrightarrow>
   set prev \<subseteq> set (checkedMilestones (foldl (applyEvent pms prev) st evs))"
  by (induction evs arbitrary: st) (simp_all add: applyEvent_keeps)

lemma formAfter_keeps: "set prev \<subseteq> set (checkedMilestones (formAfter pms prev report evs))"
  unfolding formAfter_def
  by (rule foldl_applyEvent_keeps) (simp add: initialState_def initialMilestones_def set_arrayFromSet)

lemma applyEvent_inherited:
  "mid \<in> set prev \<Longrightarrow> applyEvent pms prev st (CheckedChange mid c) = st"
  by (simp split: option.splits)

section \<open>Progress\<close>

lemma progressValue_length:
  "progressValue (Some ms) checked =
     (if length ms = 0 then 0
      else mathRound (binary64 (binary64 (of_nat (length checked) / of_nat (length ms)) * 100)))"
  by (simp add: progressValue_def)

lemma progressValue_no_catalog:
  "progressValue None checked = 0 \<and> progressValue (Some []) checked = 0"
  by (simp add: progressValue_def)

subsection \<open>The rounding error of the double operations\<close>

lemma pow2_powi: "pow2 e = 2 powi e"
  by (simp add: pow2_def power_int_def field_simps)

lemma pow2_pos: "0 < pow2 e"
  by (simp add: pow2_powi)

lemma ilog2_bounds:
  assumes "0 < x"
  shows "pow2 (ilog2 x) \<le> x \<and> x < pow2 (ilog2 x + 1)"
proof (cases "1 \<le> x")
  case True
  define n where "n = nat \<lfloor>x\<rfloor>"
  define k where "k = floorlog 2 n"
  have n: "0 < n" "of_nat n \<le> x" "x < of_nat n + 1"
    using True by (simp_all add: n_def) linarith+
  from floorlog_bounds [of n 2] n(1) have b: "2 ^ (k - 1) \<le> n" "n < 2 ^ k"
    by (simp_all add: k_def)
  have k: "0 < k" using n(1) by (simp add: k_def floorlog_def)
  have e: "ilog2 x = int k - 1" using True by (simp add: ilog2_def n_def k_def)
  have q1: "pow2 (int k - 1) = 2 ^ (k - 1)" using k by (simp add: pow2_def nat_diff_distrib')
  have q2: "pow2 (int k - 1 + 1) = 2 ^ k" by (simp add: pow2_def)
  have l: "(2::rat) ^ (k - 1) \<le> of_nat n"
    using b(1) by (metis of_nat_le_iff of_nat_numeral of_nat_power)
  have "n + 1 \<le> 2 ^ k" using b(2) by simp
  then have "(of_nat (n + 1) :: rat) \<le> of_nat (2 ^ k)" by (simp only: of_nat_le_iff)
  then have h: "(of_nat n :: rat) + 1 \<le> 2 ^ k" by simp
  show ?thesis unfolding e q1 q2 using l h n(2) n(3) by linarith
next
  case False
  define c where "c = \<lceil>1 / x\<rceil>"
  define n where "n = nat (c - 1)"
  define k where "k = floorlog 2 n"
  have x1: "1 < 1 / x" using False assms by simp
  then have c2: "2 \<le> c" unfolding c_def by linarith
  have cb: "of_int c - 1 < 1 / x" "1 / x \<le> of_int c" unfolding c_def by linarith+
  have n: "0 < n" "of_nat n = (of_int c :: rat) - 1" using c2 by (simp_all add: n_def)
  from floorlog_bounds [of n 2] n(1) have b: "2 ^ (k - 1) \<le> n" "n < 2 ^ k"
    by (simp_all add: k_def)
  have k: "0 < k" using n(1) by (simp add: k_def floorlog_def)
  have e: "ilog2 x = - int k" using False by (simp add: ilog2_def n_def k_def c_def)
  have l: "(2::rat) ^ (k - 1) \<le> of_nat n"
    using b(1) by (metis of_nat_le_iff of_nat_numeral of_nat_power)
  from l cb(1) n(2) have "(2::rat) ^ (k - 1) < 1 / x" by linarith
  then have hi: "x < 1 / 2 ^ (k - 1)" using assms by (simp add: field_simps)
  have "n + 1 \<le> 2 ^ k" using b(2) by simp
  then have "(of_nat (n + 1) :: rat) \<le> of_nat (2 ^ k)" by (simp only: of_nat_le_iff)
  then have h: "(of_nat n :: rat) + 1 \<le> 2 ^ k" by simp
  from h cb(2) n(2) have "1 / x \<le> 2 ^ k" by linarith
  then have lo: "1 / 2 ^ k \<le> x" using assms by (simp add: field_simps)
  have p1: "pow2 (- int k) = 1 / 2 ^ k" using k by (simp add: pow2_def)
  have p2: "pow2 (- int k + 1) = 1 / 2 ^ (k - 1)"
  proof (cases "k = 1")
    case True then show ?thesis by (simp add: pow2_def)
  next
    case False
    with k have "1 < k" by simp
    then have "nat (int k - 1) = k - 1" by simp
    then show ?thesis using \<open>1 < k\<close> by (simp add: pow2_def)
  qed
  show ?thesis unfolding e p1 p2 using lo hi by simp
qed


lemma roundTiesToEven_err: "\<bar>of_int (roundTiesToEven y) - y\<bar> \<le> 1 / 2"
proof -
  have f: "of_int \<lfloor>y\<rfloor> \<le> y" "y < of_int \<lfloor>y\<rfloor> + 1" by linarith+
  show ?thesis
    unfolding roundTiesToEven_def Let_def using f by (simp add: abs_if) linarith
qed

lemma binary64_pos_err:
  assumes "0 < x"
  shows "\<bar>binary64 x - x\<bar> \<le> x / 2 ^ 53"
proof -
  define u where "u = pow2 (ilog2 x - 52)"
  define m where "m = roundTiesToEven (x / u)"
  have u: "0 < u" by (simp add: u_def pow2_pos)
  have b: "binary64 x = of_int m * u"
    using assms by (simp add: binary64_def Let_def u_def m_def)
  have "pow2 (ilog2 x) = u * 2 ^ 52"
    by (simp add: u_def pow2_powi power_int_diff)
  with ilog2_bounds [OF assms] have ux: "u * 2 ^ 52 \<le> x" by simp
  have "\<bar>of_int m * u - x\<bar> = \<bar>of_int m - x / u\<bar> * u"
    using u by (simp add: abs_mult_pos [symmetric] field_simps)
  also have "\<dots> \<le> (1 / 2) * u"
    using roundTiesToEven_err [of "x / u"] u unfolding m_def
    by (intro mult_right_mono) simp_all
  also have "\<dots> \<le> x / 2 ^ 53" using ux by simp
  finally show ?thesis unfolding b .
qed


lemma abs_triangle_100:
  fixes a b q t d1 d2 :: rat
  assumes "\<bar>a - b\<bar> \<le> d2" and "\<bar>q - t\<bar> \<le> d1" and "b = 100 * q"
  shows "\<bar>a - 100 * t\<bar> \<le> d2 + 100 * d1"
  using assms by linarith

lemma percent_err:
  assumes t: "0 < (t::rat)"
  shows "\<bar>binary64 (binary64 t * 100) - 100 * t\<bar> \<le> 100 * t / 2 ^ 51"
proof -
  define q where "q = binary64 t"
  define d where "d = t / 2 ^ 53"
  have d: "0 < d" "d < t" using t by (simp_all add: d_def)
  have e1: "\<bar>q - t\<bar> \<le> d" unfolding q_def d_def using t by (rule binary64_pos_err)
  with d have qpos: "0 < q" by linarith
  have qle: "q \<le> 2 * t" using e1 d by linarith
  have "\<bar>binary64 (q * 100) - q * 100\<bar> \<le> q * 100 / 2 ^ 53"
    using qpos by (intro binary64_pos_err) simp
  also have "\<dots> \<le> (2 * t) * 100 / 2 ^ 53" using qle by (simp add: divide_right_mono)
  also have "\<dots> = 200 * d" by (simp add: d_def)
  finally have e2: "\<bar>binary64 (q * 100) - q * 100\<bar> \<le> 200 * d" .
  have "\<bar>binary64 (q * 100) - 100 * t\<bar> \<le> 200 * d + 100 * d"
    using e2 e1 by (rule abs_triangle_100) simp
  also have "\<dots> \<le> 100 * t / 2 ^ 51" using t by (simp add: d_def)
  finally show ?thesis unfolding q_def .
qed


lemma floor_half_bounds:
  fixes k n :: rat and j :: int
  assumes n: "0 < n" and j: "j = \<lfloor>100 * k / n + 1 / 2\<rfloor>"
  shows "(2 * of_int j - 1) * n \<le> 200 * k" and "200 * k < (2 * of_int j + 1) * n"
proof -
  have "of_int j \<le> 100 * k / n + 1 / 2" "100 * k / n + 1 / 2 < of_int j + 1"
    unfolding j by linarith+
  then have "of_int j * n \<le> 100 * k + n / 2" "100 * k + n / 2 < (of_int j + 1) * n"
    using n by (simp_all add: field_simps)
  then show "(2 * of_int j - 1) * n \<le> 200 * k" "200 * k < (2 * of_int j + 1) * n"
    by (simp_all add: algebra_simps)
qed

text \<open>
  The code against the specification's formula, for a catalog that is not empty and fewer
  than \<open>2\<^sup>3\<^sup>2\<close> checked entries (the bound of an array's length): the double computation
  is at most one below the exact rounding and never above it, and it is the exact rounding
  whenever the exact percentage is not halfway between two integers.
\<close>

lemma percentage_near_spec:
  fixes K N :: nat
  assumes N: "0 < N" and K: "K < 2 ^ 32"
  shows "spec_progress K N - 1 \<le> mathRound (binary64 (binary64 (of_nat K / of_nat N) * 100))
       \<and> mathRound (binary64 (binary64 (of_nat K / of_nat N) * 100)) \<le> spec_progress K N
       \<and> ((\<forall>m::int. 200 * int K \<noteq> (2 * m + 1) * int N) \<longrightarrow>
            mathRound (binary64 (binary64 (of_nat K / of_nat N) * 100)) = spec_progress K N)"
proof (cases "K = 0")
  case True
  have "binary64 0 = 0" by (simp add: binary64_def)
  then show ?thesis using True N
    by (simp add: spec_progress_def roundHalfUp_def mathRound_def)
next
  case False
  define k :: rat where "k = of_nat K"
  define n :: rat where "n = of_nat N"
  define p where "p = binary64 (binary64 (k / n) * 100)"
  define j where "j = spec_progress K N"
  have n: "0 < n" and k: "0 < k" using N False by (simp_all add: n_def k_def)
  have jf: "j = \<lfloor>100 * k / n + 1 / 2\<rfloor>"
    using N by (simp add: j_def spec_progress_def roundHalfUp_def k_def n_def)
  note fb = floor_half_bounds [OF n jf]
  have "(2 * of_int j - 1) * n = of_int ((2 * j - 1) * int N)" "200 * k = of_int (200 * int K)"
    "(2 * of_int j + 1) * n = of_int ((2 * j + 1) * int N)"
    by (simp_all add: n_def k_def)
  with fb have A: "(2 * j - 1) * int N \<le> 200 * int K" and B: "200 * int K < (2 * j + 1) * int N"
    by (simp_all only: of_int_le_iff of_int_less_iff)
  from B have "200 * int K + 1 \<le> (2 * j + 1) * int N" by simp
  then have "(of_int (200 * int K + 1) :: rat) \<le> of_int ((2 * j + 1) * int N)"
    by (simp only: of_int_le_iff)
  then have B': "200 * k + 1 \<le> (2 * of_int j + 1) * n" by (simp add: n_def k_def)
  have "200 * K < 2 ^ 51" using K by simp
  then have "(of_nat (200 * K) :: rat) < of_nat (2 ^ 51)" by (simp only: of_nat_less_iff)
  then have K': "200 * k < 2 ^ 51" by (simp add: k_def)
  have err: "\<bar>p - 100 * (k / n)\<bar> \<le> 100 * (k / n) / 2 ^ 51"
    unfolding p_def using k n by (intro percent_err) simp
  have "100 * (k / n) / 2 ^ 51 < 1 / (2 * n)"
    using K' n by (simp add: field_simps)
  with err have close: "\<bar>p - 100 * (k / n)\<bar> < 1 / (2 * n)" by linarith
  have up: "100 * (k / n) + 1 / (2 * n) \<le> of_int j + 1 / 2"
    using B' n by (simp add: field_simps)
  have lo: "of_int j - 1 / 2 \<le> 100 * (k / n)"
    using fb(1) n by (simp add: field_simps)
  have "1 / (2 * n) \<le> 1 / 2" using N by (simp add: n_def field_simps)
  with close lo have "of_int j - 1 \<le> p + 1 / 2" by linarith
  then have ge: "j - 1 \<le> mathRound p" unfolding mathRound_def by linarith
  from close up have "p + 1 / 2 < of_int j + 1" by linarith
  then have le: "mathRound p \<le> j" unfolding mathRound_def by linarith
  have eq: "mathRound p = j" if nt: "\<forall>m::int. 200 * int K \<noteq> (2 * m + 1) * int N"
  proof -
    from nt [rule_format, of "j - 1"] have "200 * int K \<noteq> (2 * j - 1) * int N" by simp
    with A have "(2 * j - 1) * int N + 1 \<le> 200 * int K" by simp
    then have "(of_int ((2 * j - 1) * int N + 1) :: rat) \<le> of_int (200 * int K)"
      by (simp only: of_int_le_iff)
    then have "(2 * of_int j - 1) * n + 1 \<le> 200 * k" by (simp add: n_def k_def)
    then have "((2 * of_int j - 1) * n + 1) / (2 * n) \<le> 200 * k / (2 * n)"
      using n by (intro divide_right_mono) simp_all
    moreover have "((2 * of_int j - 1) * n + 1) / (2 * n) = of_int j - 1 / 2 + 1 / (2 * n)"
      using n by (simp add: field_simps)
    moreover have "200 * k / (2 * n) = 100 * (k / n)" by simp
    ultimately have "of_int j - 1 / 2 + 1 / (2 * n) \<le> 100 * (k / n)" by simp
    with close have "of_int j \<le> p + 1 / 2" by linarith
    then have "j \<le> mathRound p" unfolding mathRound_def by linarith
    with le show ?thesis by simp
  qed
  show ?thesis using ge le eq unfolding p_def j_def k_def n_def by blast
qed

lemma progressValue_near_spec:
  assumes "ms \<noteq> []" and "length checked < 2 ^ 32"
  shows "spec_progress (length checked) (length ms) - 1 \<le> progressValue (Some ms) checked
       \<and> progressValue (Some ms) checked \<le> spec_progress (length checked) (length ms)
       \<and> ((\<forall>m::int. 200 * int (length checked) \<noteq> (2 * m + 1) * int (length ms)) \<longrightarrow>
            progressValue (Some ms) checked = spec_progress (length checked) (length ms))"
  using percentage_near_spec [of "length ms" "length checked"] assms
  by (simp add: progressValue_length)

subsection \<open>Where the double computation differs\<close>

lemma percent_23_of_40: "mathRound (binary64 (binary64 (23 / 40) * 100)) = 57"
  by code_simp

text \<open>
  C3. The progress stored with a report of \<open>K\<close> checked milestones out of \<open>N\<close> is the exact
  percentage rounded half up, and 0 when \<open>N = 0\<close>. The code computes the quotient first and
  multiplies by 100 afterwards, both in doubles: for 23 checked milestones out of 40 the
  quotient is the double below 0.575, the product is the double below 57.5, and the
  progress is 57, where the exact percentage 57.5 rounds half up to 58. By
  \<open>progressValue_near_spec\<close> such a halfway percentage is the only place where the two
  differ, and by \<open>progressValue_no_catalog\<close> the progress is 0 without a catalog.
\<close>

theorem progressValue_23_of_40:
  "progressValue (Some (exampleCatalog 40)) (exampleIds 23) = 57 \<and> spec_progress 23 40 = 58"
proof -
  have "progressValue (Some (exampleCatalog 40)) (exampleIds 23)
          = mathRound (binary64 (binary64 (23 / 40) * 100))"
    by (simp add: progressValue_length exampleCatalog_def exampleIds_def)
  moreover have "spec_progress 23 40 = 58"
    by (simp add: spec_progress_def roundHalfUp_def)
  ultimately show ?thesis by (simp add: percent_23_of_40)
qed

section \<open>The overall progress\<close>

lemma sorted_last_max:
  "sorted (map f xs) \<Longrightarrow> x \<in> set xs \<Longrightarrow> f x \<le> f (last xs)"
  by (induction xs) (auto split: if_splits)

text \<open>
  C4, as amended. The overall progress is 0 for no reports. For a list of reports ordered
  by week ascending, as the query of the project page delivers it, it is the progress of
  the last report, whose week is the maximum; when no two reports share a week, it is the
  progress of the report with the maximum week.
\<close>

theorem overallProgress_sorted:
  "overallProgress [] = 0 \<and>
   (sorted (map week reports) \<longrightarrow> r \<in> set reports \<longrightarrow> (\<forall>r' \<in> set reports. week r' \<le> week r) \<longrightarrow>
      week (last reports) = week r \<and> overallProgress reports = progress (last reports)
      \<and> (distinct (map week reports) \<longrightarrow> overallProgress reports = progress r))"
proof (intro conjI impI)
  show "overallProgress [] = 0" by (simp add: overallProgress_def latestReport_def)
next
  assume s: "sorted (map week reports)" and r: "r \<in> set reports"
    and m: "\<forall>r' \<in> set reports. week r' \<le> week r"
  from r have ne: "reports \<noteq> []" by auto
  then have l: "last reports \<in> set reports" by simp
  from sorted_last_max [OF s r] m l show w: "week (last reports) = week r" by force
  show p: "overallProgress reports = progress (last reports)"
    using ne by (simp add: overallProgress_def latestReport_def)
  assume d: "distinct (map week reports)"
  then have "inj_on week (set reports)" by (simp add: distinct_map)
  with w l r have "last reports = r" by (auto dest: inj_onD)
  with p show "overallProgress reports = progress r" by simp
qed

text \<open>
  On the project page the list is the query's, so there the overall progress does not
  depend on the order in which the store holds the reports.
\<close>

lemma overallProgress_reportsQuery:
  assumes "r \<in> set (reportsOf db pid)" and "\<forall>r' \<in> set (reportsOf db pid). week r' \<le> week r"
    and "distinct (map week (reportsOf db pid))"
  shows "overallProgress (reportsQuery db pid) = progress r"
proof -
  let ?q = "reportsQuery db pid"
  have s: "sorted (map week ?q)" by (simp add: reportsQuery_def)
  have m: "set ?q = set (reportsOf db pid)" by (simp add: reportsQuery_def)
  have d: "distinct (map week ?q)" using assms(3) by (simp add: distinct_map reportsQuery_def)
  from assms(1) m have ne: "?q \<noteq> []" by auto
  then have l: "last ?q \<in> set ?q" by simp
  from sorted_last_max [OF s] assms(1) m have "week r \<le> week (last ?q)" by blast
  moreover from assms(2) l m have "week (last ?q) \<le> week r" by blast
  ultimately have "week (last ?q) = week r" by simp
  moreover from d have "inj_on week (set ?q)" by (simp add: distinct_map)
  ultimately have "last ?q = r" using l assms(1) m by (auto dest: inj_onD)
  then show ?thesis using ne by (simp add: overallProgress_def latestReport_def)
qed

theorem overallProgress_sorted_witness:
  "sorted (map week [exampleReport ''r1'' 1 25 [], exampleReport ''r2'' 2 50 []])
   \<and> distinct (map week [exampleReport ''r1'' 1 25 [], exampleReport ''r2'' 2 50 []])
   \<and> overallProgress [exampleReport ''r1'' 1 25 [], exampleReport ''r2'' 2 50 []] = 50"
  using overallProgress_sorted
    [of "[exampleReport ''r1'' 1 25 [], exampleReport ''r2'' 2 50 []]" "exampleReport ''r2'' 2 50 []"]
  by (simp add: exampleReport_def)

text \<open>
  The claim as stated fails: the same two reports in the other order give the progress of
  the report of week 1.
\<close>

theorem overallProgress_order_counterexample:
  "overallProgress [exampleReport ''r2'' 2 50 [], exampleReport ''r1'' 1 25 []] = 25
   \<and> overallProgress [exampleReport ''r1'' 1 25 [], exampleReport ''r2'' 2 50 []] = 50"
  by (simp add: overallProgress_def latestReport_def exampleReport_def)

section \<open>Validation\<close>

lemma reportSchema_accepts:
  "reportSchema s st ms p = [] \<longleftrightarrow>
     s \<noteq> [] \<and> st \<in> {''On Track'', ''At Risk'', ''Off Track''} \<and> 0 \<le> p \<and> p \<le> 100"
  by (auto simp: reportSchema_def allowedStatuses_def)

text \<open>
  C6. The schema accepts a draft exactly when its summary is not empty, its status is one
  of On Track, At Risk and Off Track, and its progress lies in [0, 100]. When the draft of
  the form is not accepted, \<open>saveReportAndProject\<close> leaves the store as it was, and (the
  store being there, so that the validation is reached) it ends with the validation error
  that carries the fields at fault.
\<close>

theorem reportSchema_gate:
  "(reportSchema s st ms p = [] \<longleftrightarrow>
      s \<noteq> [] \<and> st \<in> {''On Track'', ''At Risk'', ''Off Track''} \<and> 0 \<le> p \<and> p \<le> 100)
   \<and> (reportSchema (form_summary fs) (form_status fs) (checkedMilestones fs)
         (progressValue pms (checkedMilestones fs)) \<noteq> [] \<longrightarrow>
        fst (saveReportAndProject e db project report pms fs mark) = db
        \<and> (firestoreReady e \<longrightarrow>
             snd (saveReportAndProject e db project report pms fs mark)
               = ValidationError (reportSchema (form_summary fs) (form_status fs) (checkedMilestones fs)
                   (progressValue pms (checkedMilestones fs)))))"
  by (auto simp: reportSchema_accepts saveReportAndProject_def Let_def)

theorem reportSchema_gate_witness:
  "saveReportAndProject (exampleEnv ''T2'' ''r2'') storeWeek1 (exampleProject OnTrack)
      (newReportObject (exampleEnv ''T2'' ''r2'') (exampleProject OnTrack) 2) (Some catalog4)
      (exampleForm [] [''m1'', ''m2'']) False
     = (storeWeek1, ValidationError [SummaryField])"
proof -
  have issues: "reportSchema (form_summary (exampleForm [] [''m1'', ''m2'']))
      (form_status (exampleForm [] [''m1'', ''m2''])) (checkedMilestones (exampleForm [] [''m1'', ''m2'']))
      (progressValue (Some catalog4) (checkedMilestones (exampleForm [] [''m1'', ''m2''])))
     = [SummaryField]"
    by code_simp
  have ready: "firestoreReady (exampleEnv ''T2'' ''r2'')" by (simp add: exampleEnv_def)
  from reportSchema_gate [where fs = "exampleForm [] [''m1'', ''m2'']" and pms = "Some catalog4"
      and e = "exampleEnv ''T2'' ''r2''" and db = storeWeek1 and project = "exampleProject OnTrack"
      and report = "newReportObject (exampleEnv ''T2'' ''r2'') (exampleProject OnTrack) 2"
      and mark = False]
  show ?thesis using ready by (simp add: issues prod_eq_iff)
qed

section \<open>The completion dialog\<close>

text \<open>
  What the code does for a catalog that is loaded: the dialog is shown exactly when the
  checked list has as many entries as the catalog and the project is not Completed. When
  the checked list has no repetition and holds catalog ids only (the catalog's ids being
  distinct), that is exactly when the checked set is the whole catalog subset.
\<close>

lemma handleFormSubmit_lengths:
  "(handleFormSubmit e db project report (Some ms) st = ShowCompletionDialog \<longleftrightarrow>
      length (checkedMilestones st) = length ms \<and> project_status project \<noteq> Completed)
   \<and> (distinct (checkedMilestones st) \<longrightarrow> distinct (map milestone_id ms) \<longrightarrow>
        set (checkedMilestones st) \<subseteq> set (map milestone_id ms) \<longrightarrow>
        (handleFormSubmit e db project report (Some ms) st = ShowCompletionDialog \<longleftrightarrow>
           set (checkedMilestones st) = set (map milestone_id ms) \<and> project_status project \<noteq> Completed))"
proof -
  have a: "handleFormSubmit e db project report (Some ms) st = ShowCompletionDialog \<longleftrightarrow>
        length (checkedMilestones st) = length ms \<and> project_status project \<noteq> Completed"
    by (simp add: handleFormSubmit_def allMilestonesCompleted_def)
  have b: "length (checkedMilestones st) = length ms
             \<longleftrightarrow> set (checkedMilestones st) = set (map milestone_id ms)"
    if d1: "distinct (checkedMilestones st)" and d2: "distinct (map milestone_id ms)"
      and sub: "set (checkedMilestones st) \<subseteq> set (map milestone_id ms)"
  proof
    assume "length (checkedMilestones st) = length ms"
    then have "card (set (checkedMilestones st)) = card (set (map milestone_id ms))"
      using d1 d2 by (metis distinct_card length_map)
    with sub show "set (checkedMilestones st) = set (map milestone_id ms)"
      by (simp add: card_subset_eq)
  next
    assume "set (checkedMilestones st) = set (map milestone_id ms)"
    then have "card (set (checkedMilestones st)) = card (set (map milestone_id ms))" by simp
    then show "length (checkedMilestones st) = length ms"
      using d1 d2 by (metis distinct_card length_map)
  qed
  show ?thesis using a b by blast
qed

text \<open>
  With an empty catalog the dialog is shown exactly when nothing is checked and the project
  is not Completed: \<open>handleFormSubmit\<close> does not look at the catalog's length, as
  \<open>progressValue\<close> and the rendered checklist do.
\<close>

lemma handleFormSubmit_empty_catalog:
  "handleFormSubmit e db project report (Some []) st = ShowCompletionDialog \<longleftrightarrow>
     checkedMilestones st = [] \<and> project_status project \<noteq> Completed"
  by (simp add: handleFormSubmit_def allMilestonesCompleted_def)

text \<open>
  C2. The completion dialog is to be shown on submit if and only if the checked set is the
  whole catalog subset of the project's type, that subset is not empty and the project is
  not Completed; with an empty catalog subset it is never to be shown. The code tests that
  the catalog is loaded and compares the two lengths. So for a project whose type has no
  milestone and a report with nothing checked the dialog opens, and the visit that
  confirms it saves the report with progress 0 and sets the project to Completed. And with
  the catalog \<open>a\<close>, \<open>b\<close> and an inherited id \<open>old\<close> that is no longer in the catalog,
  checking \<open>a\<close> alone gives a checked list of length 2: the dialog opens though \<open>b\<close> is
  not checked.
\<close>

theorem handleFormSubmit_empty_catalog_dialog:
  "handleFormSubmit (exampleEnv ''T1'' ''r1'') (exampleStore []) (exampleProject OnTrack)
      (newReportObject (exampleEnv ''T1'' ''r1'') (exampleProject OnTrack) 1) (Some [])
      (exampleForm ''week 1'' []) = ShowCompletionDialog
   \<and> reportPage (exampleEnv ''T1'' ''r1'') (exampleStore []) emptyCatalogVisit
       = (\<lparr>projects = [exampleProject Completed],
           weeklyReports =
             [(''p1'', ''r1'',
               \<lparr>report_id = None, projectId = ''p1'', week = 1, progress = 0, summary = ''week 1'',
                status = ''On Track'', milestones = [], createdAt = ''T1''\<rparr>)],
           milestonesCol = []\<rparr>, Success)
   \<and> pageForm (exampleEnv ''T2'' ''r2'') staleStore (exampleProject OnTrack) staleVisit
       = (newReportObject (exampleEnv ''T2'' ''r2'') (exampleProject OnTrack) 2,
          Some [exampleMilestone ''a'', exampleMilestone ''b''],
          exampleForm ''week 2'' [''old'', ''a''])
   \<and> handleFormSubmit (exampleEnv ''T2'' ''r2'') staleStore (exampleProject OnTrack)
        (newReportObject (exampleEnv ''T2'' ''r2'') (exampleProject OnTrack) 2)
        (Some [exampleMilestone ''a'', exampleMilestone ''b''])
        (exampleForm ''week 2'' [''old'', ''a'']) = ShowCompletionDialog
   \<and> ''b'' \<notin> set [''old'', ''a'']"
  by code_simp

section \<open>What a save writes\<close>

lemma settle_Success: "settle r1 r2 = Success \<longleftrightarrow> r1 = None \<and> r2 = None"
  by (auto simp: settle_def split: option.splits writeError.splits)

lemma updateProjectStatus_reports:
  "weeklyReports (fst (updateProjectStatus e db pid s)) = weeklyReports db"
  by (simp add: updateProjectStatus_def)

lemma find_map_filter_mem:
  "find P (map f (filter Q xs)) = Some y \<Longrightarrow> \<exists>x \<in> set xs. Q x \<and> P (f x) \<and> y = f x"
  by (induction xs) (auto split: if_splits)

lemma getReport_Some_mem:
  "getReport db pid rid = Some r \<Longrightarrow> \<exists>d. (pid, rid, d) \<in> set (weeklyReports db)"
  unfolding getReport_def reportsOf_def
  by (drule find_map_filter_mem) auto

lemma getProject_id: "getProject db pid = Some project \<Longrightarrow> project_id project = pid"
  by (auto simp: getProject_def find_Some_iff)

lemma updateReportDoc_written:
  assumes a: "updateReportDoc e db pid rid d = (db1, None)"
  shows "(pid, rid, d) \<in> set (weeklyReports db1)"
proof -
  define f where
    "f = (\<lambda>(p, r, old :: WeeklyReport). if p = pid \<and> r = rid then (p, r, d) else (p, r, old))"
  from a have g: "getReport db pid rid \<noteq> None"
    by (auto simp: updateReportDoc_def split: if_splits)
  from a have w: "weeklyReports db1 = map f (weeklyReports db)"
    by (auto simp: updateReportDoc_def f_def split: if_splits)
  from g obtain old where "(pid, rid, old) \<in> set (weeklyReports db)"
    using getReport_Some_mem by fastforce
  then have "f (pid, rid, old) \<in> set (map f (weeklyReports db))" by simp
  moreover have "f (pid, rid, old) = (pid, rid, d)" by (simp add: f_def)
  ultimately show ?thesis by (simp only: w)
qed

lemma addDoc_written:
  "addDoc e db pid d = (db1, None) \<Longrightarrow> (pid, newId e, d) \<in> set (weeklyReports db1)"
  by (auto simp: addDoc_def split: if_splits)

lemma save_unfold:
  "saveReportAndProject e db project report pms st mark =
     (if \<not> firestoreReady e then (db, Returned)
      else if reportSchema (form_summary st) (form_status st) (checkedMilestones st)
                (progressValue pms (checkedMilestones st)) \<noteq> []
      then (db, ValidationError (reportSchema (form_summary st) (form_status st) (checkedMilestones st)
                (progressValue pms (checkedMilestones st))))
      else (fst (if mark
                 then updateProjectStatus e
                        (fst (reportPromise e db project report (finalReportData e report pms st)))
                        (project_id project) Completed
                 else (fst (reportPromise e db project report (finalReportData e report pms st)), None)),
            settle (snd (reportPromise e db project report (finalReportData e report pms st)))
                   (snd (if mark
                         then updateProjectStatus e
                                (fst (reportPromise e db project report (finalReportData e report pms st)))
                                (project_id project) Completed
                         else (fst (reportPromise e db project report (finalReportData e report pms st)),
                               None)))))"
  by (simp add: saveReportAndProject_def Let_def split_beta)

lemma reportPromise_written:
  "snd (reportPromise e db project report d) = None \<Longrightarrow>
   (project_id project, reportDocId e report, d)
     \<in> set (weeklyReports (fst (reportPromise e db project report d)))"
  unfolding reportPromise_def reportDocId_def
  by (cases "truthyId (report_id report)")
     (auto intro: addDoc_written updateReportDoc_written simp: prod_eq_iff)

lemma save_Success_written:
  assumes "saveReportAndProject e db project report pms st mark = (db', Success)"
  shows "(project_id project, reportDocId e report, finalReportData e report pms st)
           \<in> set (weeklyReports db')"
proof -
  let ?w = "reportPromise e db project report (finalReportData e report pms st)"
  from assms have r1: "snd ?w = None"
    by (auto simp: save_unfold settle_Success split: if_splits)
  from assms have "weeklyReports db' = weeklyReports (fst ?w)"
    by (auto simp: save_unfold updateProjectStatus_reports split: if_splits)
  with reportPromise_written [OF r1] show ?thesis by simp
qed

lemma reportPromise_frame:
  "projects (fst (reportPromise e db project report d)) = projects db
   \<and> milestonesCol (fst (reportPromise e db project report d)) = milestonesCol db"
  by (simp add: reportPromise_def addDoc_def updateReportDoc_def split: option.splits)

lemma reportPromise_failed:
  "snd (reportPromise e db project report d) \<noteq> None \<Longrightarrow>
   fst (reportPromise e db project report d) = db"
  by (auto simp: reportPromise_def addDoc_def updateReportDoc_def split: option.splits if_splits)

lemma save_reports:
  "weeklyReports (fst (saveReportAndProject e db project report pms st mark))
     = (if firestoreReady e
           \<and> reportSchema (form_summary st) (form_status st) (checkedMilestones st)
                (progressValue pms (checkedMilestones st)) = []
        then weeklyReports (fst (reportPromise e db project report (finalReportData e report pms st)))
        else weeklyReports db)"
  by (simp add: save_unfold updateProjectStatus_reports)

lemma reportPage_reports:
  assumes proj: "getProject db (v_projectId v) = Some project"
    and form: "pageForm e db project v = (report, pms, st)"
  shows "weeklyReports (fst (reportPage e db v))
     = (if reportWriteAccepted e db v
        then weeklyReports (fst (reportPromise e db project report (finalReportData e report pms st)))
        else weeklyReports db)"
proof -
  have f: "snd (reportPromise e db project report (finalReportData e report pms st)) \<noteq> None \<Longrightarrow>
     weeklyReports (fst (reportPromise e db project report (finalReportData e report pms st)))
       = weeklyReports db"
    by (simp add: reportPromise_failed)
  show ?thesis
    using proj form f
    by (auto simp: reportPage_def reportWriteAccepted_def handleFormSubmit_def onDialogButton_def
        save_reports)
qed

lemma reportPage_not_accepted:
  "\<not> reportWriteAccepted e db v \<Longrightarrow> weeklyReports (fst (reportPage e db v)) = weeklyReports db"
proof (cases "getProject db (v_projectId v)")
  case None
  then show ?thesis by (simp add: reportPage_def)
next
  case (Some project)
  assume n: "\<not> reportWriteAccepted e db v"
  obtain report pms st where f: "pageForm e db project v = (report, pms, st)"
    by (cases "pageForm e db project v")
  from reportPage_reports [OF Some f] n show ?thesis by simp
qed


lemma filter_update_others:
  "filter (\<lambda>(p, r, d). \<not> (p = pid \<and> r = rid))
     (map (\<lambda>(p, r, old). if p = pid \<and> r = rid then (p, r, d) else (p, r, old)) xs)
   = filter (\<lambda>(p, r, d). \<not> (p = pid \<and> r = rid)) xs"
  by (induction xs) auto

lemma reportPromise_reports:
  "weeklyReports (fst (reportPromise e db project report d))
     = (if snd (reportPromise e db project report d) \<noteq> None then weeklyReports db
        else case truthyId (report_id report) of
               None \<Rightarrow> weeklyReports db @ [(project_id project, newId e, d)]
             | Some rid \<Rightarrow>
                 map (\<lambda>(p, r, old). if p = project_id project \<and> r = rid then (p, r, d) else (p, r, old))
                   (weeklyReports db))"
  by (simp add: reportPromise_def addDoc_def updateReportDoc_def split: option.splits)

lemma reportPromise_others:
  "filter (\<lambda>(p, r, x). \<not> (p = project_id project \<and> r = reportDocId e report))
     (weeklyReports (fst (reportPromise e db project report d)))
   = filter (\<lambda>(p, r, x). \<not> (p = project_id project \<and> r = reportDocId e report)) (weeklyReports db)"
proof (cases "snd (reportPromise e db project report d) \<noteq> None")
  case True
  then show ?thesis by (simp add: reportPromise_failed)
next
  case False
  show ?thesis
  proof (cases "truthyId (report_id report)")
    case None
    then have w: "weeklyReports (fst (reportPromise e db project report d))
        = weeklyReports db @ [(project_id project, newId e, d)]"
      using False by (simp add: reportPromise_reports)
    have r: "reportDocId e report = newId e" using None by (simp add: reportDocId_def)
    show ?thesis unfolding w r by simp
  next
    case (Some rid)
    then have w: "weeklyReports (fst (reportPromise e db project report d))
        = map (\<lambda>(p, r, old). if p = project_id project \<and> r = rid then (p, r, d) else (p, r, old))
            (weeklyReports db)"
      using False by (simp add: reportPromise_reports)
    have r: "reportDocId e report = rid" using Some by (simp add: reportDocId_def)
    show ?thesis unfolding w r by (rule filter_update_others)
  qed
qed

lemma reportsOf_update:
  "map (\<lambda>(p, rid, d). d\<lparr>report_id := Some rid\<rparr>)
     (filter (\<lambda>(p, rid, d). p = pid')
        (map (\<lambda>(p, r, old). if p = pid \<and> r = rid then (p, r, d) else (p, r, old)) xs))
   = map (\<lambda>r. if pid' = pid \<and> report_id r = Some rid then d\<lparr>report_id := Some rid\<rparr> else r)
       (map (\<lambda>(p, rid, d). d\<lparr>report_id := Some rid\<rparr>) (filter (\<lambda>(p, rid, d). p = pid') xs))"
  by (induction xs) (auto split: if_splits)

lemma reportsOf_reportPromise:
  "set (reportsOf (fst (reportPromise e db project report d)) pid')
     \<subseteq> (if pid' = project_id project
         then insert (d\<lparr>report_id := Some (reportDocId e report)\<rparr>) (set (reportsOf db pid'))
         else set (reportsOf db pid'))"
proof (cases "snd (reportPromise e db project report d) \<noteq> None")
  case True
  then have "weeklyReports (fst (reportPromise e db project report d)) = weeklyReports db"
    by (simp add: reportPromise_failed)
  then have "reportsOf (fst (reportPromise e db project report d)) pid' = reportsOf db pid'"
    by (simp add: reportsOf_def)
  then show ?thesis by auto
next
  case False
  show ?thesis
  proof (cases "truthyId (report_id report)")
    case None
    then have w: "weeklyReports (fst (reportPromise e db project report d))
        = weeklyReports db @ [(project_id project, newId e, d)]"
      using False by (simp add: reportPromise_reports)
    have r: "reportDocId e report = newId e" using None by (simp add: reportDocId_def)
    have "reportsOf (fst (reportPromise e db project report d)) pid'
      = reportsOf db pid' @ (if pid' = project_id project then [d\<lparr>report_id := Some (newId e)\<rparr>] else [])"
      unfolding reportsOf_def w by simp
    then show ?thesis unfolding r by auto
  next
    case (Some rid)
    then have w: "weeklyReports (fst (reportPromise e db project report d))
        = map (\<lambda>(p, r, old). if p = project_id project \<and> r = rid then (p, r, d) else (p, r, old))
            (weeklyReports db)"
      using False by (simp add: reportPromise_reports)
    have r: "reportDocId e report = rid" using Some by (simp add: reportDocId_def)
    have "reportsOf (fst (reportPromise e db project report d)) pid'
      = map (\<lambda>r. if pid' = project_id project \<and> report_id r = Some rid
                   then d\<lparr>report_id := Some rid\<rparr> else r) (reportsOf db pid')"
      unfolding reportsOf_def w by (rule reportsOf_update)
    then show ?thesis unfolding r by auto
  qed
qed

lemma monotonicInheritance_insert:
  assumes m: "monotonicInheritance rs"
    and sub: "set rs' \<subseteq> insert R (set rs)"
    and before: "\<forall>r \<in> set rs. week r < week R \<longrightarrow> set (milestones r) \<subseteq> set (milestones R)"
    and after: "\<forall>r \<in> set rs. week R < week r \<longrightarrow> set (milestones R) \<subseteq> set (milestones r)"
  shows "monotonicInheritance rs'"
  unfolding monotonicInheritance_def
proof (intro ballI impI)
  fix r1 r2 assume r: "r1 \<in> set rs'" "r2 \<in> set rs'" and w: "week r1 < week r2"
  from r sub have c: "r1 = R \<or> r1 \<in> set rs" "r2 = R \<or> r2 \<in> set rs" by auto
  show "set (milestones r1) \<subseteq> set (milestones r2)"
    using c w m before after unfolding monotonicInheritance_def by (metis less_irrefl)
qed

lemma monotonicInheritance_subset:
  "monotonicInheritance rs \<Longrightarrow> set rs' \<subseteq> set rs \<Longrightarrow> monotonicInheritance rs'"
  unfolding monotonicInheritance_def by blast


lemma pageForm_floor:
  assumes proj: "getProject db (v_projectId v) = Some project"
    and form: "pageForm e db project v = (report, pms, st)"
  shows "week report = visitWeek db v"
    and "set (loaderPreviouslyCompleted db (v_projectId v) (v_reportId v) (v_reportNumber v))
           \<subseteq> set (checkedMilestones st)"
    and "\<forall>r1 \<in> set (reportsOf db (v_projectId v)).
           week r1 < week report \<longrightarrow> set (milestones r1) \<subseteq> set (checkedMilestones st)"
proof -
  let ?prev = "loaderPreviouslyCompleted db (v_projectId v) (v_reportId v) (v_reportNumber v)"
  have pid: "project_id project = v_projectId v" using proj by (rule getProject_id)
  from form have rep: "report = loaderReport e db project (v_reportId v) (v_reportNumber v)"
    and st: "st = formAfter pms ?prev report (v_events v)"
    by (auto simp: pageForm_def Let_def pid)
  show wk: "week report = visitWeek db v"
    unfolding rep visitWeek_def using week_loaderReport [of e db project] by (simp add: pid)
  show floor: "set ?prev \<subseteq> set (checkedMilestones st)"
    unfolding st by (rule formAfter_keeps)
  show "\<forall>r1 \<in> set (reportsOf db (v_projectId v)).
           week r1 < week report \<longrightarrow> set (milestones r1) \<subseteq> set (checkedMilestones st)"
    using floor unfolding set_loaderPreviouslyCompleted wk visitWeek_def by blast
qed

lemma reportPage_preserves:
  assumes page: "reportPage e db v = (db', out)"
    and proj: "getProject db (v_projectId v) = Some project"
    and form: "pageForm e db project v = (report, pms, st)"
    and m: "monotonicInheritance (reportsOf db (v_projectId v))"
    and later: "\<forall>r2 \<in> set (reportsOf db (v_projectId v)).
                 week report < week r2 \<longrightarrow> set (checkedMilestones st) \<subseteq> set (milestones r2)"
  shows "monotonicInheritance (reportsOf db' (v_projectId v))"
proof -
  let ?d = "finalReportData e report pms st"
  let ?R = "?d\<lparr>report_id := Some (reportDocId e report)\<rparr>"
  have pid: "project_id project = v_projectId v" using proj by (rule getProject_id)
  have db': "db' = fst (reportPage e db v)" using page by simp
  have "weeklyReports db' = weeklyReports db
      \<or> weeklyReports db' = weeklyReports (fst (reportPromise e db project report ?d))"
    unfolding db' using reportPage_reports [OF proj form] by auto
  then have "reportsOf db' (v_projectId v) = reportsOf db (v_projectId v)
      \<or> reportsOf db' (v_projectId v)
          = reportsOf (fst (reportPromise e db project report ?d)) (v_projectId v)"
    by (auto simp: reportsOf_def)
  then have sub: "set (reportsOf db' (v_projectId v)) \<subseteq> insert ?R (set (reportsOf db (v_projectId v)))"
    using reportsOf_reportPromise [of e db project report ?d "v_projectId v"] pid by auto
  have f: "week ?R = week report" "milestones ?R = checkedMilestones st"
    by (simp_all add: finalReportData_def)
  show ?thesis
    using m sub
  proof (rule monotonicInheritance_insert)
    show "\<forall>r \<in> set (reportsOf db (v_projectId v)).
            week r < week ?R \<longrightarrow> set (milestones r) \<subseteq> set (milestones ?R)"
      unfolding f using pageForm_floor(3) [OF proj form] .
    show "\<forall>r \<in> set (reportsOf db (v_projectId v)).
            week ?R < week r \<longrightarrow> set (milestones ?R) \<subseteq> set (milestones r)"
      unfolding f using later .
  qed
qed

lemma reportPage_other_project:
  assumes "pid \<noteq> v_projectId v"
  shows "reportsOf (fst (reportPage e db v)) pid = reportsOf db pid"
proof (cases "getProject db (v_projectId v)")
  case None
  then show ?thesis by (simp add: reportPage_def)
next
  case (Some project)
  obtain report pms st where form: "pageForm e db project v = (report, pms, st)"
    by (cases "pageForm e db project v")
  let ?d = "finalReportData e report pms st"
  let ?k = "\<lambda>(p, r, x :: WeeklyReport). \<not> (p = project_id project \<and> r = reportDocId e report)"
  have pid: "project_id project = v_projectId v" using Some by (rule getProject_id)
  have sel: "filter (\<lambda>(p, rid, d). p = pid) (filter ?k xs) = filter (\<lambda>(p, rid, d). p = pid) xs" for xs
    using assms pid by (induction xs) auto
  have "weeklyReports (fst (reportPage e db v)) = weeklyReports db
      \<or> weeklyReports (fst (reportPage e db v))
          = weeklyReports (fst (reportPromise e db project report ?d))"
    using reportPage_reports [OF Some form] by auto
  then have "filter ?k (weeklyReports (fst (reportPage e db v))) = filter ?k (weeklyReports db)"
    using reportPromise_others [of project e report db ?d] by auto
  then have "filter (\<lambda>(p, rid, d). p = pid) (filter ?k (weeklyReports (fst (reportPage e db v))))
      = filter (\<lambda>(p, rid, d). p = pid) (filter ?k (weeklyReports db))" by simp
  then show ?thesis unfolding sel reportsOf_def by simp
qed

lemma reportPages_preserves:
  "inWeekOrder db vs \<Longrightarrow> monotonicInheritance (reportsOf db pid) \<Longrightarrow>
   monotonicInheritance (reportsOf (reportPages db vs) pid)"
proof (induction vs arbitrary: db)
  case Nil
  then show ?case by (simp add: reportPages_def)
next
  case (Cons x vs)
  obtain e v where x: "x = (e, v)" by (cases x)
  from Cons.prems(1) have latest: "\<forall>r \<in> set (reportsOf db (v_projectId v)). week r \<le> visitWeek db v"
    and rest: "inWeekOrder (fst (reportPage e db v)) vs"
    by (simp_all add: x)
  have step: "monotonicInheritance (reportsOf (fst (reportPage e db v)) pid)"
  proof (cases "pid = v_projectId v")
    case False
    then show ?thesis using Cons.prems(2) by (simp add: reportPage_other_project)
  next
    case True
    show ?thesis
    proof (cases "getProject db (v_projectId v)")
      case None
      then show ?thesis using Cons.prems(2) by (simp add: reportPage_def)
    next
      case (Some project)
      obtain report pms st where form: "pageForm e db project v = (report, pms, st)"
        by (cases "pageForm e db project v")
      have "\<forall>r2 \<in> set (reportsOf db (v_projectId v)).
                 week report < week r2 \<longrightarrow> set (checkedMilestones st) \<subseteq> set (milestones r2)"
        using latest pageForm_floor(1) [OF Some form] by fastforce
      with reportPage_preserves [OF _ Some form, of "fst (reportPage e db v)" "snd (reportPage e db v)"]
        Cons.prems(2) True
      show ?thesis by simp
    qed
  qed
  from Cons.IH [OF rest step] show ?case by (simp add: reportPages_def x)
qed

section \<open>A visit that succeeds\<close>

lemma reportPage_Success_project:
  "reportPage e db v = (db', Success) \<Longrightarrow> \<exists>project. getProject db (v_projectId v) = Some project"
  by (cases "getProject db (v_projectId v)") (auto simp: reportPage_def)

lemma reportPage_Success_written:
  assumes page: "reportPage e db v = (db', Success)"
    and proj: "getProject db (v_projectId v) = Some project"
    and form: "pageForm e db project v = (report, pms, st)"
  shows "(v_projectId v, reportDocId e report, finalReportData e report pms st)
           \<in> set (weeklyReports db')"
proof -
  have pid: "project_id project = v_projectId v" using proj by (rule getProject_id)
  from page proj form have
    "saveReportAndProject e db project report pms st False = (db', Success)
     \<or> saveReportAndProject e db project report pms st (v_decision v = Confirm) = (db', Success)"
    by (auto simp: reportPage_def handleFormSubmit_def onDialogButton_def split: if_splits)
  then show ?thesis
    unfolding pid [symmetric] by (auto dest: save_Success_written)
qed

section \<open>Monotonic inheritance\<close>

text \<open>
  C1, as amended. For every visit to the report page, whatever its outcome. When the
  report write is accepted: the document written is the form's final data, under the
  project's path; no other report document is changed; its milestones are the checked
  list; the inherited floor (the union of the milestones of the reports of strictly
  earlier weeks, as read when the page loads) is a subset of them, so the milestones of
  every report of an earlier week are among those of the written report. When it is not
  accepted, no report is changed. If monotonic inheritance holds among the project's
  reports before the visit and every report of a later week already holds the checked
  milestones (as is the case when no report is of a later week), it holds after the
  visit; and it is kept by every sequence of visits in week order. A change of a checkbox
  whose id is inherited leaves the form's state as it was.
\<close>

theorem reportPage_keeps_inherited:
  assumes page: "reportPage e db v = (db', out)"
    and proj: "getProject db (v_projectId v) = Some project"
    and form: "pageForm e db project v = (report, pms, st)"
  shows "(reportWriteAccepted e db v \<longrightarrow>
            (v_projectId v, reportDocId e report, finalReportData e report pms st)
              \<in> set (weeklyReports db')
          \<and> filter (\<lambda>(p, r, x). \<not> (p = v_projectId v \<and> r = reportDocId e report)) (weeklyReports db')
              = filter (\<lambda>(p, r, x). \<not> (p = v_projectId v \<and> r = reportDocId e report)) (weeklyReports db)
          \<and> week (finalReportData e report pms st) = week report
          \<and> milestones (finalReportData e report pms st) = checkedMilestones st
          \<and> set (loaderPreviouslyCompleted db (v_projectId v) (v_reportId v) (v_reportNumber v))
               \<subseteq> set (checkedMilestones st)
          \<and> (\<forall>r1 \<in> set (reportsOf db (v_projectId v)).
                week r1 < week report \<longrightarrow> set (milestones r1) \<subseteq> set (checkedMilestones st)))
       \<and> (\<not> reportWriteAccepted e db v \<longrightarrow> weeklyReports db' = weeklyReports db)
       \<and> (monotonicInheritance (reportsOf db (v_projectId v)) \<longrightarrow>
            (\<forall>r2 \<in> set (reportsOf db (v_projectId v)).
               week report < week r2 \<longrightarrow> set (checkedMilestones st) \<subseteq> set (milestones r2)) \<longrightarrow>
            monotonicInheritance (reportsOf db' (v_projectId v)))
       \<and> (inWeekOrder db vs \<longrightarrow> monotonicInheritance (reportsOf db pid) \<longrightarrow>
            monotonicInheritance (reportsOf (reportPages db vs) pid))
       \<and> (\<forall>mid \<in> set (loaderPreviouslyCompleted db (v_projectId v) (v_reportId v) (v_reportNumber v)).
             \<forall>c s. applyEvent pms (loaderPreviouslyCompleted db (v_projectId v) (v_reportId v)
                      (v_reportNumber v)) s (CheckedChange mid c) = s)"
proof -
  let ?prev = "loaderPreviouslyCompleted db (v_projectId v) (v_reportId v) (v_reportNumber v)"
  let ?d = "finalReportData e report pms st"
  have pid: "project_id project = v_projectId v" using proj by (rule getProject_id)
  have db': "db' = fst (reportPage e db v)" using page by simp
  have reports: "weeklyReports db'
      = (if reportWriteAccepted e db v
         then weeklyReports (fst (reportPromise e db project report ?d)) else weeklyReports db)"
    unfolding db' using proj form by (rule reportPage_reports)
  have fields: "week ?d = week report" "milestones ?d = checkedMilestones st"
    by (simp_all add: finalReportData_def)
  have accepted: "(v_projectId v, reportDocId e report, ?d) \<in> set (weeklyReports db')
          \<and> filter (\<lambda>(p, r, x). \<not> (p = v_projectId v \<and> r = reportDocId e report)) (weeklyReports db')
              = filter (\<lambda>(p, r, x). \<not> (p = v_projectId v \<and> r = reportDocId e report)) (weeklyReports db)"
    if a: "reportWriteAccepted e db v"
  proof -
    from a proj form have ok: "snd (reportPromise e db project report ?d) = None"
      by (simp add: reportWriteAccepted_def)
    from a reports have w: "weeklyReports db' = weeklyReports (fst (reportPromise e db project report ?d))"
      by simp
    show ?thesis
      unfolding w pid [symmetric]
      using reportPromise_written [OF ok] reportPromise_others [of project e report db ?d]
      by simp
  qed
  have unchanged: "\<not> reportWriteAccepted e db v \<longrightarrow> weeklyReports db' = weeklyReports db"
    using reports by simp
  have kept: "monotonicInheritance (reportsOf db' (v_projectId v))"
    if "monotonicInheritance (reportsOf db (v_projectId v))"
      and "\<forall>r2 \<in> set (reportsOf db (v_projectId v)).
               week report < week r2 \<longrightarrow> set (checkedMilestones st) \<subseteq> set (milestones r2)"
    using page proj form that by (rule reportPage_preserves)
  have ordered: "inWeekOrder db vs \<longrightarrow> monotonicInheritance (reportsOf db pid) \<longrightarrow>
            monotonicInheritance (reportsOf (reportPages db vs) pid)"
    using reportPages_preserves by blast
  have ignored: "\<forall>mid \<in> set ?prev. \<forall>c s. applyEvent pms ?prev s (CheckedChange mid c) = s"
    using applyEvent_inherited by blast
  from accepted fields pageForm_floor(2,3) [OF proj form] unchanged kept ordered ignored
  show ?thesis by blast
qed

lemma week2_page:
  "reportPage (exampleEnv ''T2'' ''r2'') storeWeek1 week2Visit
     = (fst (reportPage (exampleEnv ''T2'' ''r2'') storeWeek1 week2Visit), Success)"
  by code_simp

lemma week2_project: "getProject storeWeek1 (v_projectId week2Visit) = Some (exampleProject OnTrack)"
  by code_simp

lemma week2_form:
  "pageForm (exampleEnv ''T2'' ''r2'') storeWeek1 (exampleProject OnTrack) week2Visit
    = (newReportObject (exampleEnv ''T2'' ''r2'') (exampleProject OnTrack) 2, Some catalog4,
       exampleForm ''week 2'' [''m1'', ''m2'', ''m3''])"
  by code_simp

lemma week2_accepted: "reportWriteAccepted (exampleEnv ''T2'' ''r2'') storeWeek1 week2Visit"
  by code_simp

lemma week2_ordered:
  "inWeekOrder storeWeek1 [(exampleEnv ''T2'' ''r2'', week2Visit)]
   \<and> monotonicInheritance (reportsOf storeWeek1 ''p1'')"
  by code_simp

lemma confirm_page:
  "reportPage denyProjectUpdateEnv (exampleStore catalog2) confirmVisit
     = (\<lparr>projects = [exampleProject OnTrack],
         weeklyReports =
           [(''p1'', ''r3'',
             \<lparr>report_id = None, projectId = ''p1'', week = 3, progress = 100, summary = ''week 3'',
              status = ''On Track'', milestones = [''a'', ''b''], createdAt = ''T3''\<rparr>)],
         milestonesCol = catalog2\<rparr>, PermissionError)"
  by code_simp

lemma confirm_project:
  "getProject (exampleStore catalog2) (v_projectId confirmVisit) = Some (exampleProject OnTrack)"
  by code_simp

lemma confirm_form:
  "pageForm denyProjectUpdateEnv (exampleStore catalog2) (exampleProject OnTrack) confirmVisit
    = (newReportObject denyProjectUpdateEnv (exampleProject OnTrack) 3, Some catalog2,
       exampleForm ''week 3'' [''a'', ''b''])"
  by code_simp

lemma confirm_accepted: "reportWriteAccepted denyProjectUpdateEnv (exampleStore catalog2) confirmVisit"
  by code_simp

lemma noSummary_page:
  "reportPage (exampleEnv ''T2'' ''r2'') storeWeek1 noSummaryVisit
     = (storeWeek1, ValidationError [SummaryField])"
  by code_simp

lemma noSummary_project:
  "getProject storeWeek1 (v_projectId noSummaryVisit) = Some (exampleProject OnTrack)"
  by code_simp

lemma noSummary_form:
  "pageForm (exampleEnv ''T2'' ''r2'') storeWeek1 (exampleProject OnTrack) noSummaryVisit
    = (newReportObject (exampleEnv ''T2'' ''r2'') (exampleProject OnTrack) 2, Some catalog4,
       exampleForm [] [''m1'', ''m2'', ''m3''])"
  by code_simp

lemma noSummary_refused: "\<not> reportWriteAccepted (exampleEnv ''T2'' ''r2'') storeWeek1 noSummaryVisit"
  by code_simp

text \<open>
  The scenario of the specification: four milestones, two checked in week 1; the report of
  week 2 tries to uncheck one of them and checks a third; it is saved with the three and
  the progress 75, the report of week 1 is as before, and monotonic inheritance holds
  after the visit. Then a visit whose project update is denied: it ends in the permission
  error, and its report is written all the same. Then a visit without a summary: no
  report is changed.
\<close>

theorem reportPage_keeps_inherited_witness:
  "reportPage (exampleEnv ''T2'' ''r2'') storeWeek1 week2Visit
     = (fst (reportPage (exampleEnv ''T2'' ''r2'') storeWeek1 week2Visit), Success)
   \<and> loaderPreviouslyCompleted storeWeek1 ''p1'' None 2 = [''m1'', ''m2'']
   \<and> (''p1'', ''r2'',
        \<lparr>report_id = None, projectId = ''p1'', week = 2, progress = 75, summary = ''week 2'',
         status = ''On Track'', milestones = [''m1'', ''m2'', ''m3''], createdAt = ''T2''\<rparr>)
       \<in> set (weeklyReports (fst (reportPage (exampleEnv ''T2'' ''r2'') storeWeek1 week2Visit)))
   \<and> filter (\<lambda>(p, r, x). \<not> (p = ''p1'' \<and> r = ''r2''))
         (weeklyReports (fst (reportPage (exampleEnv ''T2'' ''r2'') storeWeek1 week2Visit)))
       = weeklyReports storeWeek1
   \<and> monotonicInheritance
        (reportsOf (fst (reportPage (exampleEnv ''T2'' ''r2'') storeWeek1 week2Visit)) ''p1'')
   \<and> monotonicInheritance
        (reportsOf (reportPages storeWeek1 [(exampleEnv ''T2'' ''r2'', week2Visit)]) ''p1'')
   \<and> snd (reportPage denyProjectUpdateEnv (exampleStore catalog2) confirmVisit) = PermissionError
   \<and> (''p1'', ''r3'',
        \<lparr>report_id = None, projectId = ''p1'', week = 3, progress = 100, summary = ''week 3'',
         status = ''On Track'', milestones = [''a'', ''b''], createdAt = ''T3''\<rparr>)
       \<in> set (weeklyReports (fst (reportPage denyProjectUpdateEnv (exampleStore catalog2) confirmVisit)))
   \<and> weeklyReports (fst (reportPage (exampleEnv ''T2'' ''r2'') storeWeek1 noSummaryVisit))
       = weeklyReports storeWeek1"
proof -
  have fin: "finalReportData (exampleEnv ''T2'' ''r2'')
          (newReportObject (exampleEnv ''T2'' ''r2'') (exampleProject OnTrack) 2) (Some catalog4)
          (exampleForm ''week 2'' [''m1'', ''m2'', ''m3''])
        = \<lparr>report_id = None, projectId = ''p1'', week = 2, progress = 75, summary = ''week 2'',
           status = ''On Track'', milestones = [''m1'', ''m2'', ''m3''], createdAt = ''T2''\<rparr>"
    by code_simp
  have rid: "reportDocId (exampleEnv ''T2'' ''r2'')
          (newReportObject (exampleEnv ''T2'' ''r2'') (exampleProject OnTrack) 2) = ''r2''"
    by code_simp
  have prev: "loaderPreviouslyCompleted storeWeek1 ''p1'' None 2 = [''m1'', ''m2'']"
    by code_simp
  have v: "v_projectId week2Visit = ''p1''"
    by (simp add: week2Visit_def exampleVisit_def)
  have later: "\<forall>r2 \<in> set (reportsOf storeWeek1 (v_projectId week2Visit)).
      week (newReportObject (exampleEnv ''T2'' ''r2'') (exampleProject OnTrack) 2) < week r2 \<longrightarrow>
      set (checkedMilestones (exampleForm ''week 2'' [''m1'', ''m2'', ''m3''])) \<subseteq> set (milestones r2)"
    by code_simp
  have others: "filter (\<lambda>(p, r, x). \<not> (p = ''p1'' \<and> r = ''r2'')) (weeklyReports storeWeek1)
      = weeklyReports storeWeek1"
    by code_simp
  have fin3: "finalReportData denyProjectUpdateEnv
          (newReportObject denyProjectUpdateEnv (exampleProject OnTrack) 3) (Some catalog2)
          (exampleForm ''week 3'' [''a'', ''b''])
        = \<lparr>report_id = None, projectId = ''p1'', week = 3, progress = 100, summary = ''week 3'',
           status = ''On Track'', milestones = [''a'', ''b''], createdAt = ''T3''\<rparr>"
    by code_simp
  have rid3: "reportDocId denyProjectUpdateEnv
          (newReportObject denyProjectUpdateEnv (exampleProject OnTrack) 3) = ''r3''"
    by code_simp
  have v3: "v_projectId confirmVisit = ''p1''"
    by (simp add: confirmVisit_def)
  from reportPage_keeps_inherited [OF week2_page week2_project week2_form,
      of "[(exampleEnv ''T2'' ''r2'', week2Visit)]" "''p1''"]
    week2_accepted week2_ordered later
  have one: "(''p1'', ''r2'',
        \<lparr>report_id = None, projectId = ''p1'', week = 2, progress = 75, summary = ''week 2'',
         status = ''On Track'', milestones = [''m1'', ''m2'', ''m3''], createdAt = ''T2''\<rparr>)
       \<in> set (weeklyReports (fst (reportPage (exampleEnv ''T2'' ''r2'') storeWeek1 week2Visit)))
   \<and> filter (\<lambda>(p, r, x). \<not> (p = ''p1'' \<and> r = ''r2''))
         (weeklyReports (fst (reportPage (exampleEnv ''T2'' ''r2'') storeWeek1 week2Visit)))
       = weeklyReports storeWeek1
   \<and> monotonicInheritance
        (reportsOf (fst (reportPage (exampleEnv ''T2'' ''r2'') storeWeek1 week2Visit)) ''p1'')
   \<and> monotonicInheritance
        (reportsOf (reportPages storeWeek1 [(exampleEnv ''T2'' ''r2'', week2Visit)]) ''p1'')"
    by (simp only: fin rid v others) (blast?)
  from reportPage_keeps_inherited [OF confirm_page confirm_project confirm_form] confirm_accepted
  have two: "(''p1'', ''r3'',
        \<lparr>report_id = None, projectId = ''p1'', week = 3, progress = 100, summary = ''week 3'',
         status = ''On Track'', milestones = [''a'', ''b''], createdAt = ''T3''\<rparr>)
       \<in> set (weeklyReports (fst (reportPage denyProjectUpdateEnv (exampleStore catalog2) confirmVisit)))"
    by (simp only: fin3 rid3 v3 confirm_page fst_conv) (blast?)
  from reportPage_keeps_inherited [OF noSummary_page noSummary_project noSummary_form]
    noSummary_refused
  have three: "weeklyReports (fst (reportPage (exampleEnv ''T2'' ''r2'') storeWeek1 noSummaryVisit))
       = weeklyReports storeWeek1"
    by (simp only: noSummary_page fst_conv) (blast?)
  from one two three week2_page prev confirm_page show ?thesis by simp
qed

text \<open>
  The claim as stated fails: after the three visits of \<open>editEarlierVisits\<close> the report of
  week 1 holds \<open>m2\<close> and the report of week 2 does not.
\<close>

theorem monotonicInheritance_counterexample:
  "map week (reportsQuery (reportPages (exampleStore catalog4) editEarlierVisits) ''p1'') = [1, 2]
   \<and> map milestones (reportsQuery (reportPages (exampleStore catalog4) editEarlierVisits) ''p1'')
       = [[''m1'', ''m2''], [''m1'']]
   \<and> \<not> monotonicInheritance (reportsOf (reportPages (exampleStore catalog4) editEarlierVisits) ''p1'')"
  by code_simp

section \<open>Deleting a project\<close>

lemma foldl_deleteRef_reports:
  "foldl deleteRef db (map (\<lambda>x. ReportRef (fst x) (fst (snd x))) xs)
     = db\<lparr>weeklyReports :=
            filter (\<lambda>x. (fst x, fst (snd x)) \<notin> (\<lambda>x. (fst x, fst (snd x))) ` set xs) (weeklyReports db)\<rparr>"
proof (induction xs arbitrary: db)
  case Nil
  then show ?case by simp
next
  case (Cons x xs)
  have "filter (\<lambda>y. (fst y, fst (snd y)) \<notin> (\<lambda>x. (fst x, fst (snd x))) ` set xs)
          (filter (\<lambda>(p, r, d). \<not> (p = fst x \<and> r = fst (snd x))) (weeklyReports db))
        = filter (\<lambda>y. (fst y, fst (snd y)) \<notin> (\<lambda>x. (fst x, fst (snd x))) ` set (x # xs)) (weeklyReports db)"
    unfolding filter_filter by (rule filter_cong) auto
  then show ?case by (simp add: Cons.IH)
qed

lemma batch_result:
  "foldl deleteRef db
     (map (\<lambda>(q, rid, d). ReportRef q rid) (filter (\<lambda>(q, rid, d). q = pid) (weeklyReports db))
        @ [ProjectRef pid])
   = db\<lparr>weeklyReports := filter (\<lambda>(q, r, d). q \<noteq> pid) (weeklyReports db),
         projects := filter (\<lambda>p. project_id p \<noteq> pid) (projects db)\<rparr>"
proof -
  let ?snap = "filter (\<lambda>(q, rid, d). q = pid) (weeklyReports db)"
  have g: "(\<lambda>(q, rid, d :: WeeklyReport). ReportRef q rid) = (\<lambda>x. ReportRef (fst x) (fst (snd x)))"
    by (rule ext) auto
  have f: "filter (\<lambda>x. (fst x, fst (snd x)) \<notin> (\<lambda>x. (fst x, fst (snd x))) ` set ?snap) (weeklyReports db)
        = filter (\<lambda>(q, r, d). q \<noteq> pid) (weeklyReports db)"
    by (rule filter_cong) (auto simp: image_iff)
  have "foldl deleteRef db (map (\<lambda>(q, rid, d). ReportRef q rid) ?snap)
        = db\<lparr>weeklyReports := filter (\<lambda>(q, r, d). q \<noteq> pid) (weeklyReports db)\<rparr>"
    unfolding g foldl_deleteRef_reports f ..
  then show ?thesis by simp
qed

lemma reportsOf_filtered:
  "reportsOf (db\<lparr>weeklyReports := filter (\<lambda>(q, r, d). q \<noteq> pid) (weeklyReports db),
         projects := ps\<rparr>) pid = []"
  by (simp add: reportsOf_def filter_empty_conv) auto

lemma getProject_filtered:
  "getProject (db\<lparr>weeklyReports := ws,
         projects := filter (\<lambda>p. project_id p \<noteq> pid) (projects db)\<rparr>) pid = None"
  by (simp add: getProject_def find_None_iff)

lemma handleDeleteProject_unfold:
  "handleDeleteProject e db (Some p) =
     (if \<not> firestoreReady e then (db, Returned)
      else if \<not> rules e OpList (ReportsCol (project_id p)) then (db, PermissionError)
      else if list_all (rules e OpDelete)
                (map (\<lambda>(q, rid, d). ReportRef q rid)
                   (filter (\<lambda>(q, rid, d). q = project_id p) (weeklyReports db))
                 @ [ProjectRef (project_id p)])
      then (db\<lparr>weeklyReports := filter (\<lambda>(q, r, d). q \<noteq> project_id p) (weeklyReports db),
               projects := filter (\<lambda>q. project_id q \<noteq> project_id p) (projects db)\<rparr>, Success)
      else (db, PermissionError))"
  unfolding handleDeleteProject_def commit_def Let_def batch_result
  by (simp add: settle_def)

text \<open>
  C5. A call of \<open>handleDeleteProject\<close> for a project ends in one of three ways. After a
  successful call no weekly report is left under the project's path and the project
  document is absent (the documents of other projects and the catalog being as before);
  after any other call, the authorization-denied one in particular, the store is exactly as
  before: nothing in between is ever the result.
\<close>

theorem handleDeleteProject_atomic:
  assumes "handleDeleteProject e db (Some p) = (db', out)"
  shows "(out = Success \<or> out = PermissionError \<or> out = Returned)
     \<and> (out = Success \<longrightarrow>
           reportsOf db' (project_id p) = [] \<and> getProject db' (project_id p) = None
           \<and> weeklyReports db' = filter (\<lambda>(q, r, d). q \<noteq> project_id p) (weeklyReports db)
           \<and> projects db' = filter (\<lambda>q. project_id q \<noteq> project_id p) (projects db)
           \<and> milestonesCol db' = milestonesCol db)
     \<and> (out \<noteq> Success \<longrightarrow> db' = db)"
proof -
  let ?del = "db\<lparr>weeklyReports := filter (\<lambda>(q, r, d). q \<noteq> project_id p) (weeklyReports db),
         projects := filter (\<lambda>q. project_id q \<noteq> project_id p) (projects db)\<rparr>"
  consider (skip) "db' = db" "out = Returned" | (denied) "db' = db" "out = PermissionError"
    | (deleted) "db' = ?del" "out = Success"
    using assms unfolding handleDeleteProject_unfold
    by (auto split: if_splits)
  then show ?thesis
  proof cases
    case skip then show ?thesis by simp
  next
    case denied then show ?thesis by simp
  next
    case deleted
    then show ?thesis by (simp add: reportsOf_filtered getProject_filtered)
  qed
qed

lemma delete_allowed:
  "handleDeleteProject (exampleEnv ''T9'' ''r9'') storeWeek1 (Some (exampleProject OnTrack))
     = (\<lparr>projects = [], weeklyReports = [], milestonesCol = catalog4\<rparr>, Success)"
  by code_simp

lemma delete_denied:
  "handleDeleteProject denyDeleteEnv storeWeek1 (Some (exampleProject OnTrack))
     = (storeWeek1, PermissionError)"
  by code_simp

theorem handleDeleteProject_atomic_witness:
  "handleDeleteProject (exampleEnv ''T9'' ''r9'') storeWeek1 (Some (exampleProject OnTrack))
     = (\<lparr>projects = [], weeklyReports = [], milestonesCol = catalog4\<rparr>, Success)
   \<and> reportsOf \<lparr>projects = [], weeklyReports = [], milestonesCol = catalog4\<rparr> ''p1'' = []
   \<and> getProject \<lparr>projects = [], weeklyReports = [], milestonesCol = catalog4\<rparr> ''p1'' = None
   \<and> handleDeleteProject denyDeleteEnv storeWeek1 (Some (exampleProject OnTrack))
       = (storeWeek1, PermissionError)"
  using handleDeleteProject_atomic [OF delete_allowed] handleDeleteProject_atomic [OF delete_denied]
    delete_allowed delete_denied
  by (simp add: exampleProject_def)

section \<open>The creation time\<close>

lemma find_append_Some: "find P xs = Some x \<Longrightarrow> find P (xs @ ys) = Some x"
  by (induction xs) (auto split: if_splits)

lemma getReport_addDoc:
  "getReport db pid rid = Some r \<Longrightarrow> getReport (fst (addDoc e db pid' d)) pid rid = Some r"
  by (auto simp: addDoc_def getReport_def reportsOf_def find_append_Some)

lemma find_update:
  "find (\<lambda>r. report_id r = Some rid)
      (map (\<lambda>(p, rid, d). d\<lparr>report_id := Some rid\<rparr>)
        (filter (\<lambda>(p, rid, d). p = pid)
          (map (\<lambda>(p, r, old). if p = pid' \<and> r = rid' then (p, r, d) else (p, r, old)) xs)))
   = map_option (\<lambda>r. if pid = pid' \<and> rid = rid' then d\<lparr>report_id := Some rid\<rparr> else r)
      (find (\<lambda>r. report_id r = Some rid)
        (map (\<lambda>(p, rid, d). d\<lparr>report_id := Some rid\<rparr>) (filter (\<lambda>(p, rid, d). p = pid) xs)))"
  by (induction xs) (auto split: if_splits)

lemma getReport_updateReportDoc:
  "getReport (fst (updateReportDoc e db pid' rid' d)) pid rid
     = (if snd (updateReportDoc e db pid' rid' d) = None
        then map_option (\<lambda>r. if pid = pid' \<and> rid = rid' then d\<lparr>report_id := Some rid\<rparr> else r)
               (getReport db pid rid)
        else getReport db pid rid)"
  by (simp add: updateReportDoc_def getReport_def reportsOf_def find_update)

lemma getReport_updateProjectStatus:
  "getReport (fst (updateProjectStatus e db pid' s)) pid rid = getReport db pid rid"
  by (simp add: getReport_def reportsOf_def updateProjectStatus_reports)

lemma getReport_id: "getReport db pid rid = Some r \<Longrightarrow> report_id r = Some rid"
  by (auto simp: getReport_def find_Some_iff)

lemma createdAt_reportPromise:
  assumes r: "getReport db pid rid = Some r"
    and loaded: "\<And>i. truthyId (report_id report) = Some i \<Longrightarrow>
                   getReport db (project_id project) i = Some report"
  shows "\<exists>r'. getReport (fst (reportPromise e db project report (finalReportData e report pms st))) pid rid
              = Some r' \<and> createdAt r' = createdAt r"
proof (cases "truthyId (report_id report)")
  case None
  then show ?thesis using r by (simp add: reportPromise_def getReport_addDoc)
next
  case (Some i)
  have h: "hasId report" using Some by (simp add: hasId_def)
  from loaded [OF Some] have l: "getReport db (project_id project) i = Some report" .
  show ?thesis
  proof (cases "pid = project_id project \<and> rid = i")
    case True
    with l r have "r = report" by simp
    then show ?thesis using Some r True h
      by (simp add: reportPromise_def getReport_updateReportDoc finalReportData_def)
  next
    case False
    then show ?thesis using Some r
      by (auto simp: reportPromise_def getReport_updateReportDoc)
  qed
qed

lemma createdAt_save:
  assumes r: "getReport db pid rid = Some r"
    and loaded: "\<And>i. truthyId (report_id report) = Some i \<Longrightarrow>
                   getReport db (project_id project) i = Some report"
  shows "\<exists>r'. getReport (fst (saveReportAndProject e db project report pms st mark)) pid rid
              = Some r' \<and> createdAt r' = createdAt r"
  using createdAt_reportPromise [OF r loaded, of e pms st] r
  by (auto simp: save_unfold getReport_updateProjectStatus)

lemma loaderReport_loaded:
  assumes "\<not> (truthyId rid \<noteq> None \<and> loaderReportToEdit db (project_id project) rid = None)"
    and "truthyId (report_id (loaderReport e db project rid n)) = Some i"
  shows "getReport db (project_id project) i = Some (loaderReport e db project rid n)"
proof (cases "truthyId rid")
  case None
  then show ?thesis using assms(2)
    by (simp add: loaderReport_def loaderReportToEdit_def newReportObject_def truthyId_def)
next
  case (Some j)
  with assms(1) obtain r where g: "getReport db (project_id project) j = Some r"
    by (auto simp: loaderReportToEdit_def)
  then have rep: "loaderReport e db project rid n = r"
    using Some by (simp add: loaderReport_def loaderReportToEdit_def)
  from getReport_id [OF g] Some have "truthyId (report_id r) = Some j"
    by (auto simp: truthyId_def split: option.splits if_splits)
  with assms(2) rep have "i = j" by simp
  with g rep show ?thesis by simp
qed

lemma createdAt_reportPage:
  assumes r: "getReport db pid rid = Some r"
  shows "\<exists>r'. getReport (fst (reportPage e db v)) pid rid = Some r' \<and> createdAt r' = createdAt r"
proof (cases "getProject db (v_projectId v)")
  case None
  then show ?thesis using r by (simp add: reportPage_def)
next
  case (Some project)
  show ?thesis
  proof (cases "truthyId (v_reportId v) \<noteq> None
             \<and> loaderReportToEdit db (project_id project) (v_reportId v) = None")
    case True
    then show ?thesis using r Some by (simp add: reportPage_def)
  next
    case False
    obtain report pms st where f: "pageForm e db project v = (report, pms, st)"
      by (cases "pageForm e db project v")
    then have rep: "report = loaderReport e db project (v_reportId v) (v_reportNumber v)"
      by (auto simp: pageForm_def Let_def)
    have loaded: "\<And>i. truthyId (report_id report) = Some i \<Longrightarrow>
                   getReport db (project_id project) i = Some report"
      unfolding rep using loaderReport_loaded [OF False] by blast
    have "fst (reportPage e db v) = fst (saveReportAndProject e db project report pms st False)
        \<or> fst (reportPage e db v)
            = fst (saveReportAndProject e db project report pms st (v_decision v = Confirm))"
      using Some False f
      by (auto simp: reportPage_def handleFormSubmit_def onDialogButton_def)
    then show ?thesis
      using createdAt_save [OF r loaded] by metis
  qed
qed

lemma createdAt_reportPages:
  "getReport db pid rid = Some r \<Longrightarrow>
   \<exists>r'. getReport (reportPages db vs) pid rid = Some r' \<and> createdAt r' = createdAt r"
proof (induction vs arbitrary: db r)
  case Nil
  then show ?case by (simp add: reportPages_def)
next
  case (Cons x vs)
  obtain e v where x: "x = (e, v)" by (cases x)
  from createdAt_reportPage [OF Cons.prems, of e v] obtain r1 where
    r1: "getReport (fst (reportPage e db v)) pid rid = Some r1" "createdAt r1 = createdAt r"
    by blast
  from Cons.IH [OF r1(1)] r1(2) show ?case
    by (simp add: reportPages_def x)
qed

lemma created_now:
  assumes page: "reportPage e db v = (db', Success)" and new: "truthyId (v_reportId v) = None"
  shows "\<exists>d. (v_projectId v, newId e, d) \<in> set (weeklyReports db') \<and> createdAt d = now e"
proof -
  from reportPage_Success_project [OF page] obtain project where
    proj: "getProject db (v_projectId v) = Some project" ..
  obtain report pms st where f: "pageForm e db project v = (report, pms, st)"
    by (cases "pageForm e db project v")
  then have rep: "report = newReportObject e project (v_reportNumber v)"
    using new by (auto simp: pageForm_def Let_def loaderReport_def loaderReportToEdit_def)
  have "reportDocId e report = newId e" "createdAt (finalReportData e report pms st) = now e"
    unfolding rep
    by (simp_all add: reportDocId_def finalReportData_def hasId_def newReportObject_def truthyId_def)
  with reportPage_Success_written [OF page proj f] show ?thesis by metis
qed

text \<open>
  C7. The creation time of a report is set when the report is created, to the time of
  that visit; and whatever visits to the report page follow, in any number and order,
  edits of that very report among them, a report that exists keeps the creation time it
  has.
\<close>

theorem createdAt_immutable:
  "(reportPage e db v = (db', Success) \<longrightarrow> truthyId (v_reportId v) = None \<longrightarrow>
      (\<exists>d. (v_projectId v, newId e, d) \<in> set (weeklyReports db') \<and> createdAt d = now e))
   \<and> (getReport db pid rid = Some r \<longrightarrow>
        map_option createdAt (getReport (reportPages db vs) pid rid) = Some (createdAt r))"
proof (intro conjI impI)
  assume "reportPage e db v = (db', Success)" and "truthyId (v_reportId v) = None"
  then show "\<exists>d. (v_projectId v, newId e, d) \<in> set (weeklyReports db') \<and> createdAt d = now e"
    by (rule created_now)
next
  assume "getReport db pid rid = Some r"
  from createdAt_reportPages [OF this, of vs]
  show "map_option createdAt (getReport (reportPages db vs) pid rid) = Some (createdAt r)"
    by auto
qed

lemma week1_stored:
  "getReport storeWeek1 ''p1'' ''r1'' = Some (exampleReport ''r1'' 1 50 [''m1'', ''m2''])"
  by code_simp

lemma week1_edited:
  "map_option milestones
     (getReport (reportPages storeWeek1 [(exampleEnv ''T9'' ''r9'', editWeek1Visit)]) ''p1'' ''r1'')
   = Some [''m1'', ''m2'', ''m3'']"
  by code_simp

text \<open>
  The report \<open>r1\<close>, created at \<open>T0\<close>, is edited at \<open>T9\<close>: a third milestone is checked, and
  the creation time is still \<open>T0\<close>. The report of week 2 is created at \<open>T2\<close>.
\<close>

theorem createdAt_immutable_witness:
  "map_option milestones
     (getReport (reportPages storeWeek1 [(exampleEnv ''T9'' ''r9'', editWeek1Visit)]) ''p1'' ''r1'')
     = Some [''m1'', ''m2'', ''m3'']
   \<and> map_option createdAt
       (getReport (reportPages storeWeek1 [(exampleEnv ''T9'' ''r9'', editWeek1Visit)]) ''p1'' ''r1'')
     = Some ''T0''
   \<and> (\<exists>d. (''p1'', ''r2'', d)
            \<in> set (weeklyReports (fst (reportPage (exampleEnv ''T2'' ''r2'') storeWeek1 week2Visit)))
          \<and> createdAt d = ''T2'')"
proof -
  have new: "truthyId (v_reportId week2Visit) = None"
    by (simp add: week2Visit_def exampleVisit_def truthyId_def)
  have v: "v_projectId week2Visit = ''p1''" "newId (exampleEnv ''T2'' ''r2'') = ''r2''"
    "now (exampleEnv ''T2'' ''r2'') = ''T2''"
    by (simp_all add: week2Visit_def exampleVisit_def exampleEnv_def)
  from createdAt_immutable [where e = "exampleEnv ''T2'' ''r2''" and db = storeWeek1
      and v = week2Visit
      and db' = "fst (reportPage (exampleEnv ''T2'' ''r2'') storeWeek1 week2Visit)"
      and pid = "''p1''" and rid = "''r1''" and r = "exampleReport ''r1'' 1 50 [''m1'', ''m2'']"
      and vs = "[(exampleEnv ''T9'' ''r9'', editWeek1Visit)]"]
  show ?thesis using week2_page week1_stored week1_edited new
    by (simp add: v exampleReport_def)
qed

section \<open>Declining the completion\<close>

lemma binary64_1: "binary64 1 = 1"
  by code_simp

lemma binary64_100: "binary64 100 = 100"
  by code_simp

lemma mathRound_100: "mathRound 100 = 100"
  by code_simp

lemma progressValue_full:
  "ms \<noteq> [] \<Longrightarrow> length checked = length ms \<Longrightarrow> progressValue (Some ms) checked = 100"
  by (simp add: progressValue_def binary64_1 binary64_100 mathRound_100)

text \<open>
  C9, as amended. When a submission has opened the completion dialog and the caller
  declines (Just Save Report): no update of the project document is issued, so the
  projects are as before; the save succeeds exactly when the draft passes the validation
  and the store accepts the report write; when it succeeds, the report is written with the
  full checked list and the computed progress, which is 100 for a catalog that is not
  empty; when it does not, the store is as before.
\<close>

theorem decline_frame:
  assumes dialog: "handleFormSubmit e db project report pms st = ShowCompletionDialog"
    and decl: "onDialogButton Decline e db project report pms st = (db', out)"
  shows "projects db' = projects db \<and> milestonesCol db' = milestonesCol db
     \<and> (out = Success \<longleftrightarrow>
          firestoreReady e
          \<and> reportSchema (form_summary st) (form_status st) (checkedMilestones st)
               (progressValue pms (checkedMilestones st)) = []
          \<and> snd (reportPromise e db project report (finalReportData e report pms st)) = None)
     \<and> (out = Success \<longrightarrow>
          (project_id project, reportDocId e report, finalReportData e report pms st)
            \<in> set (weeklyReports db')
          \<and> milestones (finalReportData e report pms st) = checkedMilestones st
          \<and> progress (finalReportData e report pms st) = progressValue pms (checkedMilestones st))
     \<and> (out \<noteq> Success \<longrightarrow> db' = db)
     \<and> (\<forall>ms. pms = Some ms \<longrightarrow> ms \<noteq> [] \<longrightarrow> progressValue pms (checkedMilestones st) = 100)"
proof -
  let ?d = "finalReportData e report pms st"
  let ?w = "reportPromise e db project report ?d"
  from decl have s: "saveReportAndProject e db project report pms st False = (db', out)"
    by (simp add: onDialogButton_def)
  have frame: "projects db' = projects db \<and> milestonesCol db' = milestonesCol db"
    using s reportPromise_frame [of e db project report ?d]
    by (auto simp: save_unfold split: if_splits)
  have iff: "out = Success \<longleftrightarrow>
          firestoreReady e
          \<and> reportSchema (form_summary st) (form_status st) (checkedMilestones st)
               (progressValue pms (checkedMilestones st)) = []
          \<and> snd ?w = None"
    using s by (auto simp: save_unfold settle_Success split: if_splits)
  have written: "out = Success \<longrightarrow>
          (project_id project, reportDocId e report, ?d) \<in> set (weeklyReports db')"
    using s save_Success_written by blast
  have failed: "out \<noteq> Success \<longrightarrow> db' = db"
    using s reportPromise_failed [of e db project report ?d]
    by (auto simp: save_unfold settle_Success split: if_splits)
  have full: "\<forall>ms. pms = Some ms \<longrightarrow> ms \<noteq> [] \<longrightarrow> progressValue pms (checkedMilestones st) = 100"
    using dialog
    by (auto simp: handleFormSubmit_def allMilestonesCompleted_def progressValue_full split: if_splits)
  show ?thesis using frame iff written failed full
    by (simp add: finalReportData_def)
qed

lemma decline_dialog:
  "handleFormSubmit (exampleEnv ''T3'' ''r3'') (exampleStore catalog2) (exampleProject OnTrack)
      (newReportObject (exampleEnv ''T3'' ''r3'') (exampleProject OnTrack) 3) (Some catalog2)
      (exampleForm ''week 3'' [''a'', ''b'']) = ShowCompletionDialog"
  by code_simp

lemma decline_saved:
  "onDialogButton Decline (exampleEnv ''T3'' ''r3'') (exampleStore catalog2) (exampleProject OnTrack)
      (newReportObject (exampleEnv ''T3'' ''r3'') (exampleProject OnTrack) 3) (Some catalog2)
      (exampleForm ''week 3'' [''a'', ''b''])
   = (\<lparr>projects = [exampleProject OnTrack],
       weeklyReports =
         [(''p1'', ''r3'',
           \<lparr>report_id = None, projectId = ''p1'', week = 3, progress = 100, summary = ''week 3'',
            status = ''On Track'', milestones = [''a'', ''b''], createdAt = ''T3''\<rparr>)],
       milestonesCol = catalog2\<rparr>, Success)"
  by code_simp

text \<open>
  The scenario of the specification: two milestones, both checked in the report of week 3;
  the dialog opens, the caller declines; the report is saved with both milestones and the
  progress 100, and the project is as before.
\<close>

theorem decline_frame_witness:
  "handleFormSubmit (exampleEnv ''T3'' ''r3'') (exampleStore catalog2) (exampleProject OnTrack)
      (newReportObject (exampleEnv ''T3'' ''r3'') (exampleProject OnTrack) 3) (Some catalog2)
      (exampleForm ''week 3'' [''a'', ''b'']) = ShowCompletionDialog
   \<and> onDialogButton Decline (exampleEnv ''T3'' ''r3'') (exampleStore catalog2) (exampleProject OnTrack)
      (newReportObject (exampleEnv ''T3'' ''r3'') (exampleProject OnTrack) 3) (Some catalog2)
      (exampleForm ''week 3'' [''a'', ''b''])
     = (\<lparr>projects = [exampleProject OnTrack],
         weeklyReports =
           [(''p1'', ''r3'',
             \<lparr>report_id = None, projectId = ''p1'', week = 3, progress = 100, summary = ''week 3'',
              status = ''On Track'', milestones = [''a'', ''b''], createdAt = ''T3''\<rparr>)],
         milestonesCol = catalog2\<rparr>, Success)
   \<and> projects (exampleStore catalog2) = [exampleProject OnTrack]
   \<and> progressValue (Some catalog2) (checkedMilestones (exampleForm ''week 3'' [''a'', ''b''])) = 100"
  using decline_frame [OF decline_dialog decline_saved] decline_dialog decline_saved
  by (simp add: catalog2_def exampleStore_def)

text \<open>
  The claim as stated fails: the dialog opens before the draft is validated, so with an
  empty summary and both milestones checked the dialog opens, and after the caller
  declines the validation fails and no report is written.
\<close>

theorem decline_writes_counterexample:
  "handleFormSubmit (exampleEnv ''T3'' ''r3'') (exampleStore catalog2) (exampleProject OnTrack)
      (newReportObject (exampleEnv ''T3'' ''r3'') (exampleProject OnTrack) 3) (Some catalog2)
      (exampleForm [] [''a'', ''b'']) = ShowCompletionDialog
   \<and> onDialogButton Decline (exampleEnv ''T3'' ''r3'') (exampleStore catalog2) (exampleProject OnTrack)
      (newReportObject (exampleEnv ''T3'' ''r3'') (exampleProject OnTrack) 3) (Some catalog2)
      (exampleForm [] [''a'', ''b''])
     = (exampleStore catalog2, ValidationError [SummaryField])
   \<and> weeklyReports (exampleStore catalog2) = []"
  by code_simp

end
